theory Spec2Isabelle
  imports Main "HOL-Library.Sublist"
begin

section \<open>Observable effects\<close>

text \<open>
  Every call that leaves the process (a log line, a file-system or loader call, a
  transport call, a sleep) is recorded, in program order, in a list of events. A
  handle returned by the dynamic loader, a registry proxy and a service object are
  addresses; the null pointer is \<open>None\<close>.
\<close>

datatype event =
    LogError string
  | LogWarning string
  | Access string
  | GetContextObject
  | Sleep nat
  | OpenDir string
  | DlOpen string
  | DlSym nat string
  | CallGenerator string string
  | RegisterForNotifications nat string string
  | WaitBlocked

section \<open>StringHelper\<close>

text \<open>
  Modelled from the spec: \<open>StringHelper::StartsWith\<close> is declared in
  \<open>hidl-util/StringHelper.h\<close>, which is not part of the source file. The scanner keeps
  an entry whose name "starts with prefix".
\<close>

definition StartsWith :: "string \<Rightarrow> string \<Rightarrow> bool" where
  "StartsWith str pfx = (length pfx \<le> length str \<and> take (length pfx) str = pfx)"

text \<open>
  Modelled from the spec: \<open>StringHelper::EndsWith\<close> is declared in
  \<open>hidl-util/StringHelper.h\<close>, which is not part of the source file. The scanner keeps
  an entry whose name "ends with suffix".
\<close>

definition EndsWith :: "string \<Rightarrow> string \<Rightarrow> bool" where
  "EndsWith str sfx = (length sfx \<le> length str \<and> drop (length str - length sfx) str = sfx)"

text \<open>
  Modelled from the spec: \<open>StringHelper::JoinStrings\<close> is declared in
  \<open>hidl-util/StringHelper.h\<close>, which is not part of the source file. The warning of
  the resolver is "listing all candidates": their names with the separator between
  them.
\<close>

fun JoinStrings :: "string list \<Rightarrow> string \<Rightarrow> string" where
  "JoinStrings [] sep = []"
| "JoinStrings [x] sep = x"
| "JoinStrings (x # y # ys) sep = x @ sep @ JoinStrings (y # ys) sep"

section \<open>The file system and the dynamic loader\<close>

text \<open>
  The parser of qualified names (\<open>hidl-util/FQName.h\<close>) and the three root paths
  (build macros) are not part of the source file: a parsed name is given by the
  answers of its five accessors, and the parser and the paths are parameters.
  \<open>opendir\<close> gives the entries of a directory in the order \<open>readdir\<close> yields them, or
  \<open>None\<close> when the directory cannot be opened. \<open>dlopen\<close> gives the handle of a
  library, \<open>dlsym\<close> the function behind a symbol of a loaded library; the function
  takes the instance name and returns a service object or null.
\<close>

record FQName =
  isValid :: bool
  isFullyQualified :: bool
  isIdentifier :: bool
  getPackageAndVersion :: string
  iface_name :: string

record env =
  parseFQName :: "string \<Rightarrow> FQName"
  opendir :: "string \<Rightarrow> string list option"
  dlopen :: "string \<Rightarrow> nat option"
  dlsym :: "nat \<Rightarrow> string \<Rightarrow> (string \<Rightarrow> nat option) option"
  HAL_LIBRARY_PATH_ODM :: string
  HAL_LIBRARY_PATH_VENDOR :: string
  HAL_LIBRARY_PATH_SYSTEM :: string

section \<open>search\<close>

text \<open>The \<open>readdir\<close> loop of \<open>search\<close>: \<open>results\<close> is the vector built so far.\<close>

fun readdir_loop :: "string list \<Rightarrow> string \<Rightarrow> string \<Rightarrow> string list \<Rightarrow> string list" where
  "readdir_loop [] pfx sfx results = results"
| "readdir_loop (name # rest) pfx sfx results =
     readdir_loop rest pfx sfx
       (if StartsWith name pfx \<and> EndsWith name sfx then results @ [name] else results)"

definition search :: "env \<Rightarrow> string \<Rightarrow> string \<Rightarrow> string \<Rightarrow> string list \<times> event list" where
  "search e path pfx sfx =
     (case opendir e path of
        None \<Rightarrow> ([], [OpenDir path])
      | Some entries \<Rightarrow> (readdir_loop entries pfx sfx [], [OpenDir path]))"

section \<open>PassthroughServiceManager\<close>

text \<open>
  The two nested loops of \<open>get\<close> leave either by the \<open>goto beginLookup\<close>, with the
  handle and the library name, or by running out of candidates, with the value the
  variable \<open>handle\<close> holds then.
\<close>

datatype loop_exit = GotoBeginLookup nat string | FellThrough "nat option"

fun lib_loop :: "env \<Rightarrow> string \<Rightarrow> string list \<Rightarrow> nat option \<Rightarrow> loop_exit \<times> event list" where
  "lib_loop e path [] handle = (FellThrough handle, [])"
| "lib_loop e path (lib # libs) handle =
     (case dlopen e (path @ lib) of
        Some h \<Rightarrow> (GotoBeginLookup h lib, [DlOpen (path @ lib)])
      | None \<Rightarrow>
          (case lib_loop e path libs None of
             (r, t) \<Rightarrow> (r, DlOpen (path @ lib) # t)))"

definition multiple_warning :: "string list \<Rightarrow> event list" where
  "multiple_warning libs =
     (if 1 < length libs
      then [LogWarning (''Multiple libraries found: '' @ JoinStrings libs '', '')]
      else [])"

fun path_loop :: "env \<Rightarrow> string \<Rightarrow> string list \<Rightarrow> nat option \<Rightarrow> loop_exit \<times> event list" where
  "path_loop e pfx [] handle = (FellThrough handle, [])"
| "path_loop e pfx (path # paths) handle =
     (case search e path pfx ''.so'' of
        (libs, t1) \<Rightarrow>
          (case lib_loop e path libs handle of
             (GotoBeginLookup h lib, t2) \<Rightarrow>
               (GotoBeginLookup h lib, t1 @ multiple_warning libs @ t2)
           | (FellThrough handle', t2) \<Rightarrow>
               (case path_loop e pfx paths handle' of
                  (r, t3) \<Rightarrow> (r, t1 @ multiple_warning libs @ t2 @ t3))))"

definition search_roots :: "env \<Rightarrow> string list" where
  "search_roots e = [HAL_LIBRARY_PATH_ODM e, HAL_LIBRARY_PATH_VENDOR e, HAL_LIBRARY_PATH_SYSTEM e]"

definition impl_prefix :: "FQName \<Rightarrow> string" where
  "impl_prefix iface = getPackageAndVersion iface @ ''-impl''"

definition fetch_symbol :: "FQName \<Rightarrow> string" where
  "fetch_symbol iface = ''HIDL_FETCH_'' @ iface_name iface"

text \<open>The part of \<open>get\<close> from the label \<open>beginLookup\<close> on.\<close>

definition beginLookup :: "env \<Rightarrow> FQName \<Rightarrow> string \<Rightarrow> nat \<Rightarrow> string \<Rightarrow> nat option \<times> event list" where
  "beginLookup e iface name handle library =
     (let sym = fetch_symbol iface in
      case dlsym e handle sym of
        None \<Rightarrow>
          (None, [DlSym handle sym,
                  LogError (''Passthrough lookup opened '' @ library @
                            '' but could not find symbol '' @ sym)])
      | Some generator \<Rightarrow> (generator name, [DlSym handle sym, CallGenerator sym name]))"

definition get :: "env \<Rightarrow> string \<Rightarrow> string \<Rightarrow> nat option \<times> event list" where
  "get e fqName name =
     (let iface = parseFQName e fqName in
      if \<not> isValid iface \<or> \<not> isFullyQualified iface \<or> isIdentifier iface
      then (None, [LogError (''Invalid interface name passthrough lookup: '' @ fqName)])
      else
        (case path_loop e (impl_prefix iface) (search_roots e) None of
           (GotoBeginLookup h lib, t) \<Rightarrow>
             (case beginLookup e iface name h lib of (r, t') \<Rightarrow> (r, t @ t'))
         | (FellThrough None, t) \<Rightarrow> (None, t)
         | (FellThrough (Some h), t) \<Rightarrow>
             (case beginLookup e iface name h [] of (r, t') \<Rightarrow> (r, t @ t'))))"

text \<open>
  \<open>LOG(FATAL)\<close> writes its message and aborts the process: the \<open>return\<close> statement
  after it is never reached. An operation therefore either returns a value to its
  caller or ends the process. \<open>Return<T>\<close> carries either a value or the description
  of a transport error.
\<close>

datatype 'a outcome = Returned 'a | ProcessAborted string

datatype 'a Return = ReturnOk 'a | ReturnError string

definition add :: "string list \<Rightarrow> string \<Rightarrow> nat option \<Rightarrow> bool Return outcome" where
  "add interfaceChain name service =
     ProcessAborted ''Cannot register services with passthrough service manager.''"

definition list :: "'cb \<Rightarrow> unit Return outcome" where
  "list hidl_cb = ProcessAborted ''Cannot list services with passthrough service manager.''"

definition listByInterface :: "string \<Rightarrow> 'cb \<Rightarrow> unit Return outcome" where
  "listByInterface fqInstanceName hidl_cb =
     ProcessAborted ''Cannot list services with passthrough service manager.''"

definition registerForNotifications :: "string \<Rightarrow> string \<Rightarrow> 'cb \<Rightarrow> bool Return outcome" where
  "registerForNotifications fqName name callback =
     ProcessAborted ''Cannot register for notifications with passthrough service manager.''"

section \<open>defaultServiceManager\<close>

text \<open>
  The process state: the cached registry proxy, the number of root-object lookups made
  so far, and the events so far. The registry side is given by the result of the
  accessibility probe, the result of the n-th root-object lookup of the process, the
  answer of the remote \<open>registerForNotifications\<close>, and the notifications the
  transport thread delivers to a waiter: those that arrive before the caller first
  tests the flag, and those that arrive during its n-th sleep on the condition
  variable.
\<close>

record state =
  gDefaultServiceManager :: "nat option"
  attempts :: nat
  trace :: "event list"

type_synonym notification = "string \<times> string \<times> bool"

record registry =
  access_hwbinder :: bool
  getContextObject :: "nat \<Rightarrow> nat option"
  remote_registerForNotifications :: "nat \<Rightarrow> string \<Rightarrow> string \<Rightarrow> bool Return"
  early_notifications :: "notification list"
  blocked_notifications :: "nat \<Rightarrow> notification list"

definition emit :: "event list \<Rightarrow> state \<Rightarrow> state" where
  "emit evs s = s\<lparr>trace := trace s @ evs\<rparr>"

text \<open>One run of the body of the \<open>while\<close> loop.\<close>

definition attempt :: "registry \<Rightarrow> state \<Rightarrow> state" where
  "attempt r s =
     (let g = getContextObject r (attempts s);
          s1 = emit [GetContextObject] (s\<lparr>gDefaultServiceManager := g, attempts := Suc (attempts s)\<rparr>)
      in if g = None then emit [Sleep 1] s1 else s1)"

partial_function (option) retry_loop :: "registry \<Rightarrow> state \<Rightarrow> state option" where
  "retry_loop r s =
     (if gDefaultServiceManager s = None then retry_loop r (attempt r s) else Some s)"

definition defaultServiceManager :: "registry \<Rightarrow> state \<Rightarrow> (nat option \<times> state) option" where
  "defaultServiceManager r s =
     (if gDefaultServiceManager s \<noteq> None then Some (gDefaultServiceManager s, s)
      else if \<not> access_hwbinder r then Some (None, emit [Access ''/dev/hwbinder''] s)
      else
        (case retry_loop r (emit [Access ''/dev/hwbinder''] s) of
           None \<Rightarrow> None
         | Some s' \<Rightarrow> Some (gDefaultServiceManager s', s')))"

section \<open>Waiter and waitForHwService\<close>

text \<open>
  \<open>notify_count\<close> counts the calls of \<open>mCondition.notify_one()\<close>. The mutex makes
  each callback atomic, so a callback is one step.
\<close>

record Waiter =
  mRegistered :: bool
  notify_count :: nat

definition new_Waiter :: Waiter where
  "new_Waiter = \<lparr>mRegistered = False, notify_count = 0\<rparr>"

definition onRegistration :: "Waiter \<Rightarrow> string \<Rightarrow> string \<Rightarrow> bool \<Rightarrow> Waiter" where
  "onRegistration w fqName name preexisting =
     (if mRegistered w then w
      else w\<lparr>mRegistered := True, notify_count := Suc (notify_count w)\<rparr>)"

fun deliver :: "notification list \<Rightarrow> Waiter \<Rightarrow> Waiter" where
  "deliver [] w = w"
| "deliver ((fqName, name, preexisting) # ns) w =
     deliver ns (onRegistration w fqName name preexisting)"

text \<open>
  \<open>mCondition.wait(lock, pred)\<close> is \<open>while (!pred()) wait(lock)\<close>: the caller tests
  the flag, and while it is false sleeps on the condition variable, during which the
  transport thread may run callbacks. The result is the waiter and the number of
  times the caller slept.
\<close>

partial_function (option) wait :: "(nat \<Rightarrow> notification list) \<Rightarrow> nat \<Rightarrow> Waiter \<Rightarrow> (Waiter \<times> nat) option" where
  "wait sched n w =
     (if mRegistered w then Some (w, n) else wait sched (Suc n) (deliver (sched n) w))"

text \<open>
  The result of \<open>waitForHwService\<close> is \<open>None\<close> when the call never returns; otherwise
  the final state and, when \<open>waiter->wait()\<close> was called, the waiter as that call
  left it.
\<close>

definition waitForHwService ::
  "registry \<Rightarrow> string \<Rightarrow> string \<Rightarrow> state \<Rightarrow> (state \<times> Waiter option) option" where
  "waitForHwService r interface instanceName s =
     (case defaultServiceManager r s of
        None \<Rightarrow> None
      | Some (None, s1) \<Rightarrow>
          Some (emit [LogError ''Could not get default service manager.''] s1, None)
      | Some (Some manager, s1) \<Rightarrow>
          (let waiter = new_Waiter;
               s2 = emit [RegisterForNotifications manager interface instanceName] s1
           in case remote_registerForNotifications r manager interface instanceName of
                ReturnError description \<Rightarrow>
                  Some (emit [LogError (''Transport error, '' @ description @
                               '', during notification registration for '' @
                               interface @ ''/'' @ instanceName @ ''.'')] s2, None)
              | ReturnOk False \<Rightarrow>
                  Some (emit [LogError (''Could not register for notifications for '' @
                               interface @ ''/'' @ instanceName @ ''.'')] s2, None)
              | ReturnOk True \<Rightarrow>
                  (case wait (blocked_notifications r) 0 (deliver (early_notifications r) waiter) of
                     None \<Rightarrow> None
                   | Some (w, n) \<Rightarrow> Some (emit (replicate n WaitBlocked) s2, Some w))))"

section \<open>A sample device\<close>

text \<open>
  A device with three candidates under the ODM root (the first one does not load), a
  subdirectory there with a further library, one candidate under the vendor root, and
  no system root.
\<close>

definition demo_fq :: "string \<Rightarrow> FQName" where
  "demo_fq s =
     (if s = ''com.example.foo@1.0::IFoo''
      then \<lparr>isValid = True, isFullyQualified = True, isIdentifier = False,
            getPackageAndVersion = ''com.example.foo@1.0'', iface_name = ''IFoo''\<rparr>
      else \<lparr>isValid = False, isFullyQualified = False, isIdentifier = False,
            getPackageAndVersion = [], iface_name = []\<rparr>)"

definition demo_env :: env where
  "demo_env =
     \<lparr>parseFQName = demo_fq,
      opendir = (\<lambda>p. if p = ''/odm/''
                      then Some [''com.example.foo@1.0-impl-bad.so'', ''lib'',
                                 ''com.example.foo@1.0-impl.so'',
                                 ''com.example.foo@1.0-impl-late.so'']
                      else if p = ''/odm/lib''
                      then Some [''com.example.foo@1.0-impl-deep.so'']
                      else if p = ''/vendor/''
                      then Some [''com.example.foo@1.0-impl-ext.so'']
                      else None),
      dlopen = (\<lambda>p. if p = ''/odm/com.example.foo@1.0-impl.so'' then Some 7
                     else if p = ''/odm/com.example.foo@1.0-impl-late.so'' then Some 8
                     else if p = ''/vendor/com.example.foo@1.0-impl-ext.so'' then Some 9
                     else None),
      dlsym = (\<lambda>h sym. if h = 7 \<and> sym = ''HIDL_FETCH_IFoo''
                        then Some (\<lambda>name. if name = ''default'' then Some 42 else None)
                        else None),
      HAL_LIBRARY_PATH_ODM = ''/odm/'',
      HAL_LIBRARY_PATH_VENDOR = ''/vendor/'',
      HAL_LIBRARY_PATH_SYSTEM = ''/system/''\<rparr>"

text \<open>
  A registry that answers the third root-object lookup, accepts a registration for
  one interface, fails at the transport for another and refuses the rest; the only
  notification arrives during the second sleep and reports another interface.
\<close>

definition demo_state :: state where
  "demo_state = \<lparr>gDefaultServiceManager = None, attempts = 0, trace = []\<rparr>"

definition demo_registry :: registry where
  "demo_registry =
     \<lparr>access_hwbinder = True,
      getContextObject = (\<lambda>n. if n < 2 then None else Some 5),
      remote_registerForNotifications =
        (\<lambda>m interface instanceName.
           if interface = ''com.example.foo@1.0::IFoo'' then ReturnOk True
           else if interface = ''com.example.foo@1.0::IGone'' then ReturnError ''DEAD_OBJECT''
           else ReturnOk False),
      early_notifications = [],
      blocked_notifications =
        (\<lambda>n. if n = 1 then [(''com.example.bar@2.0::IBar'', ''other'', False)] else [])\<rparr>"

section \<open>Notions of the specification\<close>

text \<open>
  The events that touch the file system: a directory scan and a library load.
\<close>

definition touches_filesystem :: "event \<Rightarrow> bool" where
  "touches_filesystem ev = (case ev of OpenDir p \<Rightarrow> True | DlOpen p \<Rightarrow> True | _ \<Rightarrow> False)"

text \<open>
  An operation surfaces a condition as a reportable error when it returns to its
  caller, and what it returns is an error.
\<close>

definition surfaced_as_error :: "'a Return outcome \<Rightarrow> bool" where
  "surfaced_as_error out = (case out of Returned (ReturnError d) \<Rightarrow> True | _ \<Rightarrow> False)"

text \<open>
  The events of \<open>k\<close> failed root-object lookups, each followed by its sleep of one
  second; and: the lookup number \<open>k\<close> from now is the first one that succeeds.
\<close>

definition failed_attempts :: "nat \<Rightarrow> event list" where
  "failed_attempts k = concat (replicate k [GetContextObject, Sleep 1])"

definition first_success :: "registry \<Rightarrow> state \<Rightarrow> nat \<Rightarrow> bool" where
  "first_success r s k =
     (getContextObject r (attempts s + k) \<noteq> None
      \<and> (\<forall>j<k. getContextObject r (attempts s + j) = None))"

text \<open>
  The waiter of a call of \<open>waitForHwService\<close> after the caller has slept \<open>k\<close> times:
  it has received the early notifications and those of the first \<open>k\<close> sleeps. And:
  the waiter is registered after \<open>k\<close> sleeps and not before.
\<close>

definition waiter_after :: "registry \<Rightarrow> nat \<Rightarrow> Waiter" where
  "waiter_after r k =
     deliver (early_notifications r @ concat (map (blocked_notifications r) [0..<k])) new_Waiter"

definition first_registered :: "registry \<Rightarrow> nat \<Rightarrow> bool" where
  "first_registered r k =
     (mRegistered (waiter_after r k) \<and> (\<forall>j<k. \<not> mRegistered (waiter_after r j)))"

text \<open>
  No library of the list loads from the root. The events of a root in which no
  candidate loads: the scan, the warning when there are several candidates, and one
  load attempt per candidate, in scan order. The directories a run has scanned. The
  first load of a run that succeeded, with the events that came after it.
\<close>

definition unloadable :: "env \<Rightarrow> string \<Rightarrow> string list \<Rightarrow> bool" where
  "unloadable e root libs = (\<forall>lib\<in>set libs. dlopen e (root @ lib) = None)"

definition failed_root_trace :: "env \<Rightarrow> string \<Rightarrow> string \<Rightarrow> event list" where
  "failed_root_trace e pfx root =
     [OpenDir root] @ multiple_warning (fst (search e root pfx ''.so''))
       @ map (\<lambda>lib. DlOpen (root @ lib)) (fst (search e root pfx ''.so''))"

definition opened_dirs :: "event list \<Rightarrow> string list" where
  "opened_dirs t = concat (map (\<lambda>ev. case ev of OpenDir p \<Rightarrow> [p] | _ \<Rightarrow> []) t)"

fun first_load :: "env \<Rightarrow> event list \<Rightarrow> (string \<times> event list) option" where
  "first_load e [] = None"
| "first_load e (DlOpen p # t) = (if dlopen e p \<noteq> None then Some (p, t) else first_load e t)"
| "first_load e (ev # t) = first_load e t"

section \<open>The library scanner\<close>

lemma StartsWith_prefix: "StartsWith str pfx \<longleftrightarrow> prefix pfx str"
  unfolding StartsWith_def
  by (metis append_eq_conv_conj prefix_def take_is_prefix prefix_length_le)

lemma EndsWith_suffix: "EndsWith str sfx \<longleftrightarrow> suffix sfx str"
  unfolding EndsWith_def
  by (metis suffix_drop suffix_length_le suffix_def append_eq_conv_conj length_append
      add_diff_cancel_right')

lemma readdir_loop_filter:
  "readdir_loop entries pfx sfx results =
     results @ filter (\<lambda>name. StartsWith name pfx \<and> EndsWith name sfx) entries"
  by (induction entries arbitrary: results) auto

lemma snd_search: "snd (search e path pfx sfx) = [OpenDir path]"
  by (simp add: search_def split: option.split)

text \<open>
  C9. \<open>search\<close> gives the empty vector when the directory cannot be opened (its result
  is a vector, so there is no error result). Otherwise it gives the entries of that
  directory whose name has the prefix and the suffix, in the order \<open>readdir\<close> yields
  them. The only directory it opens is the one it is given: it does not descend into
  subdirectories.
\<close>

theorem search_scan:
  "(opendir e path = None \<longrightarrow> fst (search e path pfx sfx) = [])
   \<and> (\<forall>entries. opendir e path = Some entries \<longrightarrow>
         fst (search e path pfx sfx) =
           filter (\<lambda>name. prefix pfx name \<and> suffix sfx name) entries)
   \<and> snd (search e path pfx sfx) = [OpenDir path]"
  by (simp add: search_def readdir_loop_filter StartsWith_prefix EndsWith_suffix
      split: option.split)

theorem search_scan_witness:
  "opendir demo_env ''/system/'' = None
   \<and> fst (search demo_env ''/system/'' ''com.example.foo@1.0-impl'' ''.so'') = []
   \<and> fst (search demo_env ''/odm/'' ''com.example.foo@1.0-impl'' ''.so'') =
       [''com.example.foo@1.0-impl-bad.so'', ''com.example.foo@1.0-impl.so'',
        ''com.example.foo@1.0-impl-late.so'']
   \<and> snd (search demo_env ''/odm/'' ''com.example.foo@1.0-impl'' ''.so'') = [OpenDir ''/odm/'']"
proof -
  have none: "opendir demo_env ''/system/'' = None"
    by (simp add: demo_env_def)
  have some: "opendir demo_env ''/odm/'' =
      Some [''com.example.foo@1.0-impl-bad.so'', ''lib'', ''com.example.foo@1.0-impl.so'',
            ''com.example.foo@1.0-impl-late.so'']"
    by (simp add: demo_env_def)
  note a = search_scan [of demo_env "''/system/''" "''com.example.foo@1.0-impl''" "''.so''"]
  note b = search_scan [of demo_env "''/odm/''" "''com.example.foo@1.0-impl''" "''.so''"]
  from a none
  have 1: "fst (search demo_env ''/system/'' ''com.example.foo@1.0-impl'' ''.so'') = []"
    by blast
  from b some
  have 2: "fst (search demo_env ''/odm/'' ''com.example.foo@1.0-impl'' ''.so'') =
     filter (\<lambda>name. prefix ''com.example.foo@1.0-impl'' name \<and> suffix ''.so'' name)
       [''com.example.foo@1.0-impl-bad.so'', ''lib'', ''com.example.foo@1.0-impl.so'',
        ''com.example.foo@1.0-impl-late.so'']"
    by blast
  from b
  have 3: "snd (search demo_env ''/odm/'' ''com.example.foo@1.0-impl'' ''.so'') =
      [OpenDir ''/odm/'']"
    by blast
  show ?thesis
    unfolding 1 2 3 using none by (simp add: suffix_def)
qed

section \<open>The passthrough resolver\<close>

text \<open>
  C6. When the qualified name is invalid, not fully qualified, or an identifier,
  \<open>get\<close> logs an error and returns null, and that log line is its only effect: no
  directory is scanned and no library is loaded.
\<close>

theorem get_invalid_name:
  assumes "\<not> isValid (parseFQName e fqName) \<or> \<not> isFullyQualified (parseFQName e fqName)
           \<or> isIdentifier (parseFQName e fqName)"
  shows "get e fqName name =
           (None, [LogError (''Invalid interface name passthrough lookup: '' @ fqName)])
         \<and> filter touches_filesystem (snd (get e fqName name)) = []"
  using assms by (auto simp: get_def Let_def touches_filesystem_def)

theorem get_invalid_name_witness:
  "\<not> isValid (parseFQName demo_env ''IFoo'')
   \<and> get demo_env ''IFoo'' ''default'' =
       (None, [LogError ''Invalid interface name passthrough lookup: IFoo''])
   \<and> filter touches_filesystem (snd (get demo_env ''IFoo'' ''default'')) = []"
proof -
  have h: "\<not> isValid (parseFQName demo_env ''IFoo'')"
    by (simp add: demo_env_def demo_fq_def)
  then have "\<not> isValid (parseFQName demo_env ''IFoo'') \<or> \<not> isFullyQualified (parseFQName demo_env ''IFoo'')
           \<or> isIdentifier (parseFQName demo_env ''IFoo'')" by blast
  from get_invalid_name [OF this, of "''default''"] h show ?thesis
    by (simp add: touches_filesystem_def)
qed

text \<open>
  C2, as the specification words it: a registry-only operation of the passthrough
  manager surfaces the condition to its caller as an error result. It does not:
  \<open>add\<close> never returns.
\<close>

theorem passthrough_registry_ops_counterexample:
  "\<not> surfaced_as_error (add [''com.example.foo@1.0::IFoo''] ''default'' (Some 42))"
  by (simp add: surfaced_as_error_def add_def)

text \<open>
  C2, amended to what the source does: each of \<open>add\<close>, \<open>list\<close>, \<open>listByInterface\<close> and
  \<open>registerForNotifications\<close> of the passthrough manager logs a fatal message and ends
  the process, whatever its arguments; nothing is returned to the caller.
\<close>

theorem passthrough_registry_ops_abort:
  "add interfaceChain name service =
     ProcessAborted ''Cannot register services with passthrough service manager.''
   \<and> list hidl_cb = ProcessAborted ''Cannot list services with passthrough service manager.''
   \<and> listByInterface fqInstanceName hidl_cb' =
       ProcessAborted ''Cannot list services with passthrough service manager.''
   \<and> registerForNotifications fqName name' callback =
       ProcessAborted ''Cannot register for notifications with passthrough service manager.''"
  by (simp add: add_def list_def listByInterface_def registerForNotifications_def)

section \<open>The waiter\<close>

lemma deliver_char:
  "deliver ns w = (if ns = [] \<or> mRegistered w then w
                   else w\<lparr>mRegistered := True, notify_count := Suc (notify_count w)\<rparr>)"
  by (induction ns w rule: deliver.induct) (auto simp: onRegistration_def)

lemma wait_registered: "mRegistered w \<Longrightarrow> wait sched n w = Some (w, n)"
  by (subst wait.simps) simp

lemma wait_unregistered:
  "\<not> mRegistered w \<Longrightarrow> wait sched n w = wait sched (Suc n) (deliver (sched n) w)"
  by (subst wait.simps) simp

lemma deliver_append: "deliver (ns @ ms) w = deliver ms (deliver ns w)"
  by (induction ns w rule: deliver.induct) simp_all

lemma deliver_from:
  "deliver (concat (map sched [n..<n + Suc k])) w =
     deliver (concat (map sched [Suc n..<Suc n + k])) (deliver (sched n) w)"
proof -
  have "[n..<n + Suc k] = n # [Suc n..<Suc n + k]"
    by (simp add: upt_conv_Cons)
  then show ?thesis
    by (simp add: deliver_append)
qed

lemma wait_returns:
  "\<forall>j<k. \<not> mRegistered (deliver (concat (map sched [n..<n + j])) w) \<Longrightarrow>
   mRegistered (deliver (concat (map sched [n..<n + k])) w) \<Longrightarrow>
   wait sched n w = Some (deliver (concat (map sched [n..<n + k])) w, n + k)"
proof (induction k arbitrary: n w)
  case 0
  then show ?case
    by (simp add: wait_registered)
next
  case (Suc k)
  let ?w = "deliver (sched n) w"
  from Suc.prems(1) have "\<not> mRegistered (deliver (concat (map sched [n..<n + 0])) w)"
    by blast
  then have unreg: "\<not> mRegistered w"
    by simp
  have a: "\<forall>j<k. \<not> mRegistered (deliver (concat (map sched [Suc n..<Suc n + j])) ?w)"
  proof (intro allI impI)
    fix j assume "j < k"
    then have "Suc j < Suc k"
      by simp
    with Suc.prems(1) have "\<not> mRegistered (deliver (concat (map sched [n..<n + Suc j])) w)"
      by blast
    then show "\<not> mRegistered (deliver (concat (map sched [Suc n..<Suc n + j])) ?w)"
      unfolding deliver_from .
  qed
  have b: "mRegistered (deliver (concat (map sched [Suc n..<Suc n + k])) ?w)"
    using Suc.prems(2) unfolding deliver_from .
  have "wait sched n w = wait sched (Suc n) ?w"
    using unreg by (rule wait_unregistered)
  also note Suc.IH [OF a b]
  finally show ?case
    unfolding deliver_from by simp
qed

lemma wait_needs_registration:
  assumes "wait sched n w = Some res"
  shows "\<exists>k. mRegistered (deliver (concat (map sched [n..<n + k])) w)"
proof (rule wait.raw_induct
    [where P = "\<lambda>sched n w res. \<exists>k. mRegistered (deliver (concat (map sched [n..<n + k])) w)",
     OF _ assms])
  fix loop sched n w res
  assume IH: "\<And>sched n w res. loop sched n w = Some res \<Longrightarrow>
      \<exists>k. mRegistered (deliver (concat (map sched [n..<n + k])) w)"
    and body: "(if mRegistered w then Some (w, n)
               else loop sched (Suc n) (deliver (sched n) w)) = Some res"
  show "\<exists>k. mRegistered (deliver (concat (map sched [n..<n + k])) w)"
  proof (cases "mRegistered w")
    case True
    then have "mRegistered (deliver (concat (map sched [n..<n + 0])) w)"
      by simp
    then show ?thesis ..
  next
    case False
    with body have "loop sched (Suc n) (deliver (sched n) w) = Some res"
      by simp
    from IH [OF this]
    obtain k where "mRegistered (deliver (concat (map sched [Suc n..<Suc n + k])) (deliver (sched n) w))"
      by blast
    then have "mRegistered (deliver (concat (map sched [n..<n + Suc k])) w)"
      unfolding deliver_from .
    then show ?thesis ..
  qed
qed

lemma wait_result:
  assumes "wait sched n w = Some res"
  shows "mRegistered (fst res)"
proof (rule wait.raw_induct [where P = "\<lambda>sched n w res. mRegistered (fst res)", OF _ assms])
  fix loop sched n w res
  assume IH: "\<And>sched n w res. loop sched n w = Some res \<Longrightarrow> mRegistered (fst res)"
    and body: "(if mRegistered w then Some (w, n)
               else loop sched (Suc n) (deliver (sched n) w)) = Some res"
  show "mRegistered (fst res)"
  proof (cases "mRegistered w")
    case True
    with body show ?thesis
      by auto
  next
    case False
    with body have "loop sched (Suc n) (deliver (sched n) w) = Some res"
      by simp
    then show ?thesis
      by (rule IH)
  qed
qed

lemma mRegistered_deliver: "mRegistered (deliver ns w) \<longleftrightarrow> ns \<noteq> [] \<or> mRegistered w"
  by (simp add: deliver_char)

lemma mRegistered_waiter_after:
  "mRegistered (waiter_after r k) \<longleftrightarrow>
     early_notifications r \<noteq> [] \<or> (\<exists>j<k. blocked_notifications r j \<noteq> [])"
  by (auto simp: waiter_after_def mRegistered_deliver new_Waiter_def)

lemma waiter_after_deliver:
  "waiter_after r k =
     deliver (concat (map (blocked_notifications r) [0..<0 + k]))
       (deliver (early_notifications r) new_Waiter)"
  by (simp add: waiter_after_def deliver_append)

text \<open>
  C7. The first \<open>onRegistration\<close> on a fresh waiter sets the flag and signals the
  condition variable once. On a waiter whose flag is set, \<open>onRegistration\<close> changes
  nothing and signals nothing. So any sequence of callbacks leaves a waiter as it
  was when the sequence is empty or the flag was set, and otherwise sets the flag
  with exactly one signal. No operation clears the flag: callbacks keep it set, and
  \<open>wait\<close> returns at once without changing the waiter.
\<close>

theorem Waiter_transition_once:
  "onRegistration new_Waiter fqName name preexisting = \<lparr>mRegistered = True, notify_count = 1\<rparr>
   \<and> (mRegistered w \<longrightarrow> onRegistration w fqName name preexisting = w)
   \<and> deliver ns w =
       (if ns = [] \<or> mRegistered w then w
        else w\<lparr>mRegistered := True, notify_count := Suc (notify_count w)\<rparr>)
   \<and> (mRegistered w \<longrightarrow> mRegistered (deliver ns w) \<and> wait sched n w = Some (w, n))"
  by (simp add: deliver_char wait_registered) (simp add: onRegistration_def new_Waiter_def)

theorem Waiter_transition_once_witness:
  "mRegistered \<lparr>mRegistered = True, notify_count = 1\<rparr>
   \<and> onRegistration new_Waiter ''a@1.0::IA'' ''default'' False =
       \<lparr>mRegistered = True, notify_count = 1\<rparr>
   \<and> onRegistration \<lparr>mRegistered = True, notify_count = 1\<rparr> ''a@1.0::IA'' ''default'' True =
       \<lparr>mRegistered = True, notify_count = 1\<rparr>
   \<and> deliver [(''a@1.0::IA'', ''default'', False), (''a@1.0::IA'', ''default'', True)]
        \<lparr>mRegistered = False, notify_count = 0\<rparr> =
       \<lparr>mRegistered = True, notify_count = 1\<rparr>
   \<and> wait (\<lambda>n. []) 3 \<lparr>mRegistered = True, notify_count = 1\<rparr> =
       Some (\<lparr>mRegistered = True, notify_count = 1\<rparr>, 3)"
proof -
  let ?w = "\<lparr>mRegistered = True, notify_count = 1\<rparr>"
  let ?ns = "[(''a@1.0::IA'', ''default'', False), (''a@1.0::IA'', ''default'', True)]"
  have reg: "mRegistered ?w"
    by simp
  note t = Waiter_transition_once [of "''a@1.0::IA''" "''default''" False ?w "[]" "\<lambda>n. []" 3]
  note u = Waiter_transition_once [of "''a@1.0::IA''" "''default''" True ?w "[]" "\<lambda>n. []" 3]
  note v = Waiter_transition_once [of "''a@1.0::IA''" "''default''" True
      "\<lparr>mRegistered = False, notify_count = 0\<rparr>" ?ns "\<lambda>n. []" 3]
  from t have 1: "onRegistration new_Waiter ''a@1.0::IA'' ''default'' False = ?w"
    by (rule conjunct1)
  from u reg have 2: "onRegistration ?w ''a@1.0::IA'' ''default'' True = ?w"
    by blast
  from v have "deliver ?ns \<lparr>mRegistered = False, notify_count = 0\<rparr> =
      (if ?ns = [] \<or> mRegistered \<lparr>mRegistered = False, notify_count = 0\<rparr>
       then \<lparr>mRegistered = False, notify_count = 0\<rparr>
       else \<lparr>mRegistered = False, notify_count = 0\<rparr>
              \<lparr>mRegistered := True, notify_count := Suc (notify_count \<lparr>mRegistered = False, notify_count = 0\<rparr>)\<rparr>)"
    by blast
  also have "\<dots> = ?w"
    by simp
  finally have 3: "deliver ?ns \<lparr>mRegistered = False, notify_count = 0\<rparr> = ?w" .
  from t reg have 4: "wait (\<lambda>n. []) 3 ?w = Some (?w, 3)"
    by blast
  from reg 1 2 3 4 show ?thesis
    by blast
qed

section \<open>The registry client\<close>

text \<open>
  C8. With no cached proxy and a failing accessibility probe, \<open>defaultServiceManager\<close>
  returns null at once: the probe is its only effect, no root-object lookup is made
  and it does not sleep.
\<close>

theorem defaultServiceManager_unavailable:
  assumes "gDefaultServiceManager s = None" and "\<not> access_hwbinder r"
  shows "defaultServiceManager r s = Some (None, s\<lparr>trace := trace s @ [Access ''/dev/hwbinder'']\<rparr>)"
  using assms by (simp add: defaultServiceManager_def emit_def)

theorem defaultServiceManager_unavailable_witness:
  "gDefaultServiceManager demo_state = None
   \<and> \<not> access_hwbinder (demo_registry\<lparr>access_hwbinder := False\<rparr>)
   \<and> defaultServiceManager (demo_registry\<lparr>access_hwbinder := False\<rparr>) demo_state =
       Some (None, \<lparr>gDefaultServiceManager = None, attempts = 0, trace = [Access ''/dev/hwbinder'']\<rparr>)"
proof -
  have a: "gDefaultServiceManager demo_state = None" by (simp add: demo_state_def)
  have b: "\<not> access_hwbinder (demo_registry\<lparr>access_hwbinder := False\<rparr>)" by simp
  from defaultServiceManager_unavailable [OF a b] a b show ?thesis
    by (simp add: demo_state_def)
qed


lemma retry_loop_cached: "gDefaultServiceManager s \<noteq> None \<Longrightarrow> retry_loop r s = Some s"
  by (subst retry_loop.simps) auto

lemma retry_loop_step:
  "gDefaultServiceManager s = None \<Longrightarrow> retry_loop r s = retry_loop r (attempt r s)"
  by (subst retry_loop.simps) simp

lemma attempt_failed:
  "getContextObject r (attempts s) = None \<Longrightarrow>
   attempt r s = s\<lparr>gDefaultServiceManager := None, attempts := Suc (attempts s),
                    trace := trace s @ [GetContextObject, Sleep 1]\<rparr>"
  by (simp add: attempt_def emit_def)

lemma attempt_succeeded:
  "getContextObject r (attempts s) = Some h \<Longrightarrow>
   attempt r s = s\<lparr>gDefaultServiceManager := Some h, attempts := Suc (attempts s),
                    trace := trace s @ [GetContextObject]\<rparr>"
  by (simp add: attempt_def emit_def)

lemma retry_loop_returns:
  "gDefaultServiceManager s = None \<Longrightarrow>
   \<forall>j<k. getContextObject r (attempts s + j) = None \<Longrightarrow>
   getContextObject r (attempts s + k) = Some h \<Longrightarrow>
   retry_loop r s =
     Some (s\<lparr>gDefaultServiceManager := Some h, attempts := attempts s + k + 1,
             trace := trace s @ failed_attempts k @ [GetContextObject]\<rparr>)"
proof (induction k arbitrary: s)
  case 0
  then show ?case
    by (simp add: retry_loop_step attempt_succeeded retry_loop_cached failed_attempts_def)
next
  case (Suc k)
  let ?s = "attempt r s"
  from Suc.prems have first: "getContextObject r (attempts s) = None"
    by (metis add.right_neutral zero_less_Suc)
  then have s': "?s = s\<lparr>gDefaultServiceManager := None, attempts := Suc (attempts s),
                    trace := trace s @ [GetContextObject, Sleep 1]\<rparr>"
    by (rule attempt_failed)
  have a: "gDefaultServiceManager ?s = None"
    by (simp add: s')
  have b: "\<forall>j<k. getContextObject r (attempts ?s + j) = None"
    using Suc.prems(2) by (simp add: s') (metis Suc_less_eq add_Suc_right)
  have c: "getContextObject r (attempts ?s + k) = Some h"
    using Suc.prems(3) by (simp add: s')
  have "retry_loop r s = retry_loop r ?s"
    using Suc.prems(1) by (rule retry_loop_step)
  also note Suc.IH [OF a b c]
  finally show ?case
    by (simp add: s' failed_attempts_def)
qed

lemma retry_loop_needs_success:
  assumes "retry_loop r s = Some s'"
  shows "gDefaultServiceManager s = None \<longrightarrow> (\<exists>k. getContextObject r (attempts s + k) \<noteq> None)"
proof (rule retry_loop.raw_induct
    [where P = "\<lambda>r s s'. gDefaultServiceManager s = None \<longrightarrow>
                             (\<exists>k. getContextObject r (attempts s + k) \<noteq> None)", OF _ assms])
  fix loop r s s'
  assume IH: "\<And>r s s'. loop r s = Some s' \<Longrightarrow>
      gDefaultServiceManager s = None \<longrightarrow> (\<exists>k. getContextObject r (attempts s + k) \<noteq> None)"
    and body: "(if gDefaultServiceManager s = None then loop r (attempt r s) else Some s) = Some s'"
  show "gDefaultServiceManager s = None \<longrightarrow> (\<exists>k. getContextObject r (attempts s + k) \<noteq> None)"
  proof
    assume none: "gDefaultServiceManager s = None"
    show "\<exists>k. getContextObject r (attempts s + k) \<noteq> None"
    proof (cases "getContextObject r (attempts s)")
      case None
      then have s1: "attempt r s = s\<lparr>gDefaultServiceManager := None, attempts := Suc (attempts s),
                      trace := trace s @ [GetContextObject, Sleep 1]\<rparr>"
        by (rule attempt_failed)
      from none body have "loop r (attempt r s) = Some s'"
        by simp
      from IH [OF this] s1
      obtain k where "getContextObject r (Suc (attempts s) + k) \<noteq> None"
        by auto
      then have "getContextObject r (attempts s + Suc k) \<noteq> None"
        by simp
      then show ?thesis ..
    next
      case (Some h)
      then have "getContextObject r (attempts s + 0) \<noteq> None"
        by simp
      then show ?thesis ..
    qed
  qed
qed

lemma retry_loop_result:
  assumes "retry_loop r s = Some s'"
  shows "gDefaultServiceManager s' \<noteq> None"
proof (rule retry_loop.raw_induct
    [where P = "\<lambda>r s s'. gDefaultServiceManager s' \<noteq> None", OF _ assms])
  fix loop r s s'
  assume IH: "\<And>r s s'. loop r s = Some s' \<Longrightarrow> gDefaultServiceManager s' \<noteq> None"
    and body: "(if gDefaultServiceManager s = None then loop r (attempt r s) else Some s) = Some s'"
  show "gDefaultServiceManager s' \<noteq> None"
  proof (cases "gDefaultServiceManager s = None")
    case True
    with body have "loop r (attempt r s) = Some s'"
      by simp
    then show ?thesis
      by (rule IH)
  next
    case False
    with body show ?thesis
      by auto
  qed
qed

lemma defaultServiceManager_first_success:
  assumes "access_hwbinder r" and "gDefaultServiceManager s = None" and "first_success r s k"
  shows "defaultServiceManager r s =
           Some (getContextObject r (attempts s + k),
                 s\<lparr>gDefaultServiceManager := getContextObject r (attempts s + k),
                   attempts := attempts s + k + 1,
                   trace := trace s @ [Access ''/dev/hwbinder''] @ failed_attempts k
                              @ [GetContextObject]\<rparr>)"
proof -
  let ?s = "emit [Access ''/dev/hwbinder''] s"
  from assms(3) obtain h where h: "getContextObject r (attempts s + k) = Some h"
    and before: "\<forall>j<k. getContextObject r (attempts s + j) = None"
    by (auto simp: first_success_def)
  have "retry_loop r ?s =
      Some (?s\<lparr>gDefaultServiceManager := Some h, attempts := attempts ?s + k + 1,
               trace := trace ?s @ failed_attempts k @ [GetContextObject]\<rparr>)"
    by (rule retry_loop_returns) (use assms(2) h before in \<open>simp_all add: emit_def\<close>)
  with assms(1,2) show ?thesis
    by (simp add: defaultServiceManager_def h emit_def)
qed

lemma demo_first_success: "first_success demo_registry demo_state 2"
  by (simp add: first_success_def demo_registry_def demo_state_def)

lemma demo_handle:
  "defaultServiceManager (demo_registry\<lparr>early_notifications := early, blocked_notifications := sched\<rparr>)
     demo_state =
     Some (Some 5, \<lparr>gDefaultServiceManager = Some 5, attempts = 3,
                    trace = [Access ''/dev/hwbinder'', GetContextObject, Sleep 1,
                             GetContextObject, Sleep 1, GetContextObject]\<rparr>)"
proof -
  let ?r = "demo_registry\<lparr>early_notifications := early, blocked_notifications := sched\<rparr>"
  have a: "access_hwbinder ?r"
    by (simp add: demo_registry_def)
  have b: "gDefaultServiceManager demo_state = None"
    by (simp add: demo_state_def)
  have c: "first_success ?r demo_state 2"
    using demo_first_success by (simp add: first_success_def)
  show ?thesis
    unfolding defaultServiceManager_first_success [OF a b c]
    by (simp add: demo_registry_def demo_state_def failed_attempts_def numeral_2_eq_2)
qed

text \<open>
  C4. With the probe succeeding and no cached proxy, \<open>defaultServiceManager\<close> looks the
  root object up again and again, sleeping one second after each lookup that fails,
  for as many lookups as it takes: when the lookup number \<open>k\<close> from now is the first
  to succeed, the call returns its proxy after exactly \<open>k\<close> failed lookups, each
  followed by a sleep of one second, and caches it. The call returns if and only if
  some lookup succeeds (otherwise it never returns), and it never returns null.
\<close>

theorem defaultServiceManager_retries:
  assumes "access_hwbinder r" and "gDefaultServiceManager s = None"
  shows "((\<exists>res. defaultServiceManager r s = Some res) \<longleftrightarrow>
            (\<exists>k. getContextObject r (attempts s + k) \<noteq> None))
         \<and> (\<forall>k. first_success r s k \<longrightarrow>
               defaultServiceManager r s =
                 Some (getContextObject r (attempts s + k),
                       s\<lparr>gDefaultServiceManager := getContextObject r (attempts s + k),
                         attempts := attempts s + k + 1,
                         trace := trace s @ [Access ''/dev/hwbinder''] @ failed_attempts k
                                    @ [GetContextObject]\<rparr>))
         \<and> (\<forall>s'. defaultServiceManager r s \<noteq> Some (None, s'))"
proof -
  let ?s = "emit [Access ''/dev/hwbinder''] s"
  have s0: "gDefaultServiceManager ?s = None" "attempts ?s = attempts s"
    using assms(2) by (simp_all add: emit_def)
  have dsm: "defaultServiceManager r s =
      (case retry_loop r ?s of None \<Rightarrow> None | Some s' \<Rightarrow> Some (gDefaultServiceManager s', s'))"
    using assms by (simp add: defaultServiceManager_def)
  have exact: "defaultServiceManager r s =
                 Some (getContextObject r (attempts s + k),
                       s\<lparr>gDefaultServiceManager := getContextObject r (attempts s + k),
                         attempts := attempts s + k + 1,
                         trace := trace s @ [Access ''/dev/hwbinder''] @ failed_attempts k
                                    @ [GetContextObject]\<rparr>)"
    if "first_success r s k" for k
  proof -
    from that obtain h where h: "getContextObject r (attempts s + k) = Some h"
      and before: "\<forall>j<k. getContextObject r (attempts s + j) = None"
      by (auto simp: first_success_def)
    have "retry_loop r ?s =
        Some (?s\<lparr>gDefaultServiceManager := Some h, attempts := attempts ?s + k + 1,
                 trace := trace ?s @ failed_attempts k @ [GetContextObject]\<rparr>)"
      by (rule retry_loop_returns) (use s0 h before in simp_all)
    then show ?thesis
      by (simp add: dsm h emit_def)
  qed
  have returns: "\<exists>res. defaultServiceManager r s = Some res"
    if "\<exists>k. getContextObject r (attempts s + k) \<noteq> None"
  proof -
    from that obtain k where "first_success r s k"
      unfolding first_success_def
      using exists_least_iff [of "\<lambda>k. getContextObject r (attempts s + k) \<noteq> None"] by auto
    from exact [OF this] show ?thesis
      by blast
  qed
  have needs: "\<exists>k. getContextObject r (attempts s + k) \<noteq> None"
    if "defaultServiceManager r s = Some res" for res
  proof -
    from that obtain s' where "retry_loop r ?s = Some s'"
      by (auto simp: dsm split: option.splits)
    from retry_loop_needs_success [OF this] s0 show ?thesis
      by simp
  qed
  have nonnull: "defaultServiceManager r s \<noteq> Some (None, s')" for s'
  proof
    assume "defaultServiceManager r s = Some (None, s')"
    then have "retry_loop r ?s = Some s'" and "gDefaultServiceManager s' = None"
      by (auto simp: dsm split: option.splits)
    with retry_loop_result show False
      by blast
  qed
  from exact returns needs nonnull show ?thesis
    by blast
qed

theorem defaultServiceManager_retries_witness:
  "access_hwbinder demo_registry
   \<and> gDefaultServiceManager demo_state = None
   \<and> first_success demo_registry demo_state 2
   \<and> defaultServiceManager demo_registry demo_state =
       Some (Some 5, \<lparr>gDefaultServiceManager = Some 5, attempts = 3,
                      trace = [Access ''/dev/hwbinder'', GetContextObject, Sleep 1,
                               GetContextObject, Sleep 1, GetContextObject]\<rparr>)
   \<and> defaultServiceManager (demo_registry\<lparr>getContextObject := \<lambda>n. None\<rparr>) demo_state = None"
proof -
  let ?dead = "demo_registry\<lparr>getContextObject := \<lambda>n. None\<rparr>"
  have a: "access_hwbinder demo_registry" and a': "access_hwbinder ?dead"
    by (simp_all add: demo_registry_def)
  have b: "gDefaultServiceManager demo_state = None"
    by (simp add: demo_state_def)
  note c = demo_first_success
  note t = defaultServiceManager_retries [OF a b]
  note t' = defaultServiceManager_retries [OF a' b]
  from t c have "defaultServiceManager demo_registry demo_state =
      Some (getContextObject demo_registry (attempts demo_state + 2),
            demo_state\<lparr>gDefaultServiceManager := getContextObject demo_registry (attempts demo_state + 2),
              attempts := attempts demo_state + 2 + 1,
              trace := trace demo_state @ [Access ''/dev/hwbinder''] @ failed_attempts 2
                         @ [GetContextObject]\<rparr>)"
    by blast
  then have 1: "defaultServiceManager demo_registry demo_state =
       Some (Some 5, \<lparr>gDefaultServiceManager = Some 5, attempts = 3,
                      trace = [Access ''/dev/hwbinder'', GetContextObject, Sleep 1,
                               GetContextObject, Sleep 1, GetContextObject]\<rparr>)"
    by (simp add: demo_registry_def demo_state_def failed_attempts_def numeral_2_eq_2)
  have "\<not> (\<exists>k. getContextObject ?dead (attempts demo_state + k) \<noteq> None)"
    by simp
  with t' have "\<not> (\<exists>res. defaultServiceManager ?dead demo_state = Some res)"
    by blast
  then have 2: "defaultServiceManager ?dead demo_state = None"
    by (cases "defaultServiceManager ?dead demo_state") blast+
  from a b c 1 2 show ?thesis
    by blast
qed

section \<open>Waiting for a service\<close>

lemma waitForHwService_registered:
  assumes "defaultServiceManager r s = Some (Some m, s1)"
    and "remote_registerForNotifications r m interface instanceName = ReturnOk True"
  shows "waitForHwService r interface instanceName s =
     (case wait (blocked_notifications r) 0 (deliver (early_notifications r) new_Waiter) of
        None \<Rightarrow> None
      | Some (w, n) \<Rightarrow>
          Some (emit (RegisterForNotifications m interface instanceName # replicate n WaitBlocked) s1,
                Some w))"
  using assms by (simp add: waitForHwService_def Let_def emit_def split: option.split)

lemma demo_registered_at:
  "blocked_notifications r = (\<lambda>n. if n = 1 then ns else []) \<Longrightarrow> ns \<noteq> [] \<Longrightarrow>
   early_notifications r = [] \<Longrightarrow> first_registered r 2"
  by (auto simp: first_registered_def mRegistered_waiter_after)

text \<open>
  C3. Let \<open>defaultServiceManager\<close> return. If it returns null, \<open>waitForHwService\<close> logs
  an error and returns without calling \<open>wait\<close>. If the remote registration fails at the
  transport, or answers false, it logs an error and returns without calling \<open>wait\<close>
  either: no sleep on the condition variable occurs. If the registration answers
  true, the call returns if and only if the waiter is registered at some point; it
  then has slept exactly as many times as it took the waiter to become registered,
  and whenever it returns the waiter is registered.
\<close>

theorem waitForHwService_blocking:
  assumes "defaultServiceManager r s = Some (manager, s1)"
  shows "(manager = None \<longrightarrow>
            waitForHwService r interface instanceName s =
              Some (emit [LogError ''Could not get default service manager.''] s1, None))
         \<and> (\<forall>m description.
               manager = Some m
               \<and> remote_registerForNotifications r m interface instanceName = ReturnError description \<longrightarrow>
               waitForHwService r interface instanceName s =
                 Some (emit [RegisterForNotifications m interface instanceName,
                             LogError (''Transport error, '' @ description @
                               '', during notification registration for '' @
                               interface @ ''/'' @ instanceName @ ''.'')] s1, None))
         \<and> (\<forall>m. manager = Some m
               \<and> remote_registerForNotifications r m interface instanceName = ReturnOk False \<longrightarrow>
               waitForHwService r interface instanceName s =
                 Some (emit [RegisterForNotifications m interface instanceName,
                             LogError (''Could not register for notifications for '' @
                               interface @ ''/'' @ instanceName @ ''.'')] s1, None))
         \<and> (\<forall>m. manager = Some m
               \<and> remote_registerForNotifications r m interface instanceName = ReturnOk True \<longrightarrow>
               ((\<exists>res. waitForHwService r interface instanceName s = Some res) \<longleftrightarrow>
                  (\<exists>k. mRegistered (waiter_after r k)))
               \<and> (\<forall>k. first_registered r k \<longrightarrow>
                     waitForHwService r interface instanceName s =
                       Some (emit (RegisterForNotifications m interface instanceName
                                     # replicate k WaitBlocked) s1,
                             Some (waiter_after r k)))
               \<and> (\<forall>s' w. waitForHwService r interface instanceName s = Some (s', w) \<longrightarrow>
                     (\<exists>w'. w = Some w' \<and> mRegistered w')))"
proof (intro conjI allI impI)
  assume "manager = None"
  with assms show "waitForHwService r interface instanceName s =
      Some (emit [LogError ''Could not get default service manager.''] s1, None)"
    by (simp add: waitForHwService_def)
next
  fix m description
  assume "manager = Some m
      \<and> remote_registerForNotifications r m interface instanceName = ReturnError description"
  with assms show "waitForHwService r interface instanceName s =
                 Some (emit [RegisterForNotifications m interface instanceName,
                             LogError (''Transport error, '' @ description @
                               '', during notification registration for '' @
                               interface @ ''/'' @ instanceName @ ''.'')] s1, None)"
    by (simp add: waitForHwService_def Let_def emit_def)
next
  fix m
  assume "manager = Some m
      \<and> remote_registerForNotifications r m interface instanceName = ReturnOk False"
  with assms show "waitForHwService r interface instanceName s =
                 Some (emit [RegisterForNotifications m interface instanceName,
                             LogError (''Could not register for notifications for '' @
                               interface @ ''/'' @ instanceName @ ''.'')] s1, None)"
    by (simp add: waitForHwService_def Let_def emit_def)
next
  fix m
  assume ok: "manager = Some m
      \<and> remote_registerForNotifications r m interface instanceName = ReturnOk True"
  let ?w0 = "deliver (early_notifications r) new_Waiter"
  let ?sched = "blocked_notifications r"
  from ok assms have eq: "waitForHwService r interface instanceName s =
     (case wait ?sched 0 ?w0 of
        None \<Rightarrow> None
      | Some (w, n) \<Rightarrow>
          Some (emit (RegisterForNotifications m interface instanceName # replicate n WaitBlocked) s1,
                Some w))"
    by (simp add: waitForHwService_registered)
  have exact: "waitForHwService r interface instanceName s =
      Some (emit (RegisterForNotifications m interface instanceName # replicate k WaitBlocked) s1,
            Some (waiter_after r k))"
    if "first_registered r k" for k
  proof -
    from that have "wait ?sched 0 ?w0 =
        Some (deliver (concat (map ?sched [0..<0 + k])) ?w0, 0 + k)"
      unfolding first_registered_def waiter_after_deliver
      by (intro wait_returns) blast+
    then show ?thesis
      by (simp add: eq waiter_after_deliver)
  qed
  show "(\<exists>res. waitForHwService r interface instanceName s = Some res) \<longleftrightarrow>
          (\<exists>k. mRegistered (waiter_after r k))"
  proof
    assume "\<exists>res. waitForHwService r interface instanceName s = Some res"
    then obtain res where "wait ?sched 0 ?w0 = Some res"
      by (auto simp: eq split: option.splits)
    from wait_needs_registration [OF this] show "\<exists>k. mRegistered (waiter_after r k)"
      by (simp only: waiter_after_deliver)
  next
    assume "\<exists>k. mRegistered (waiter_after r k)"
    then obtain k where "first_registered r k"
      unfolding first_registered_def
      using exists_least_iff [of "\<lambda>k. mRegistered (waiter_after r k)"] by auto
    from exact [OF this] show "\<exists>res. waitForHwService r interface instanceName s = Some res"
      by blast
  qed
  show "waitForHwService r interface instanceName s =
      Some (emit (RegisterForNotifications m interface instanceName # replicate k WaitBlocked) s1,
            Some (waiter_after r k))"
    if "first_registered r k" for k
    using that by (rule exact)
  show "\<exists>w'. w = Some w' \<and> mRegistered w'"
    if "waitForHwService r interface instanceName s = Some (s', w)" for s' w
  proof -
    from that obtain w' n where res: "wait ?sched 0 ?w0 = Some (w', n)" and w: "w = Some w'"
      by (auto simp: eq split: option.splits)
    from wait_result [OF res] w show ?thesis
      by simp
  qed
qed

theorem waitForHwService_blocking_witness:
  "waitForHwService (demo_registry\<lparr>access_hwbinder := False\<rparr>)
       ''com.example.foo@1.0::IFoo'' ''default'' demo_state =
     Some (\<lparr>gDefaultServiceManager = None, attempts = 0,
            trace = [Access ''/dev/hwbinder'',
                     LogError ''Could not get default service manager.'']\<rparr>, None)
   \<and> waitForHwService demo_registry ''com.example.foo@1.0::IGone'' ''default'' demo_state =
     Some (\<lparr>gDefaultServiceManager = Some 5, attempts = 3,
            trace = [Access ''/dev/hwbinder'', GetContextObject, Sleep 1,
                     GetContextObject, Sleep 1, GetContextObject,
                     RegisterForNotifications 5 ''com.example.foo@1.0::IGone'' ''default'',
                     LogError ''Transport error, DEAD_OBJECT, during notification registration for com.example.foo@1.0::IGone/default.'']\<rparr>,
           None)
   \<and> waitForHwService demo_registry ''com.example.foo@1.0::IBaz'' ''default'' demo_state =
     Some (\<lparr>gDefaultServiceManager = Some 5, attempts = 3,
            trace = [Access ''/dev/hwbinder'', GetContextObject, Sleep 1,
                     GetContextObject, Sleep 1, GetContextObject,
                     RegisterForNotifications 5 ''com.example.foo@1.0::IBaz'' ''default'',
                     LogError ''Could not register for notifications for com.example.foo@1.0::IBaz/default.'']\<rparr>,
           None)
   \<and> first_registered demo_registry 2
   \<and> waitForHwService demo_registry ''com.example.foo@1.0::IFoo'' ''default'' demo_state =
     Some (\<lparr>gDefaultServiceManager = Some 5, attempts = 3,
            trace = [Access ''/dev/hwbinder'', GetContextObject, Sleep 1,
                     GetContextObject, Sleep 1, GetContextObject,
                     RegisterForNotifications 5 ''com.example.foo@1.0::IFoo'' ''default'',
                     WaitBlocked, WaitBlocked]\<rparr>,
           Some \<lparr>mRegistered = True, notify_count = 1\<rparr>)
   \<and> waitForHwService (demo_registry\<lparr>blocked_notifications := \<lambda>n. []\<rparr>)
       ''com.example.foo@1.0::IFoo'' ''default'' demo_state = None"
proof -
  let ?s1 = "\<lparr>gDefaultServiceManager = Some 5, attempts = 3,
              trace = [Access ''/dev/hwbinder'', GetContextObject, Sleep 1,
                       GetContextObject, Sleep 1, GetContextObject]\<rparr>"
  let ?off = "demo_registry\<lparr>access_hwbinder := False\<rparr>"
  let ?never = "demo_registry\<lparr>blocked_notifications := \<lambda>n. []\<rparr>"
  have absent: "defaultServiceManager ?off demo_state =
      Some (None, \<lparr>gDefaultServiceManager = None, attempts = 0, trace = [Access ''/dev/hwbinder'']\<rparr>)"
    by (simp add: defaultServiceManager_def demo_state_def emit_def)
  have handle: "defaultServiceManager demo_registry demo_state = Some (Some 5, ?s1)"
    using demo_handle [where early = "early_notifications demo_registry"
        and sched = "blocked_notifications demo_registry"]
    by simp
  have handle': "defaultServiceManager ?never demo_state = Some (Some 5, ?s1)"
    using demo_handle [where early = "early_notifications demo_registry" and sched = "\<lambda>n. []"]
    by simp
  have gone: "remote_registerForNotifications demo_registry 5 ''com.example.foo@1.0::IGone'' ''default''
      = ReturnError ''DEAD_OBJECT''"
    by (simp add: demo_registry_def)
  have refused: "remote_registerForNotifications demo_registry 5 ''com.example.foo@1.0::IBaz'' ''default''
      = ReturnOk False"
    by (simp add: demo_registry_def)
  have accepted: "remote_registerForNotifications demo_registry 5 ''com.example.foo@1.0::IFoo'' ''default''
      = ReturnOk True"
    by (simp add: demo_registry_def)
  have accepted': "remote_registerForNotifications ?never 5 ''com.example.foo@1.0::IFoo'' ''default''
      = ReturnOk True"
    by (simp add: demo_registry_def)
  have at2: "first_registered demo_registry 2"
    by (rule demo_registered_at [where ns = "[(''com.example.bar@2.0::IBar'', ''other'', False)]"])
      (simp_all add: demo_registry_def)
  have after2: "waiter_after demo_registry 2 = \<lparr>mRegistered = True, notify_count = 1\<rparr>"
    by (simp add: waiter_after_def demo_registry_def numeral_2_eq_2 onRegistration_def new_Waiter_def)
  have never: "\<not> (\<exists>k. mRegistered (waiter_after ?never k))"
    by (simp add: mRegistered_waiter_after demo_registry_def)
  from waitForHwService_blocking [OF absent, of "''com.example.foo@1.0::IFoo''" "''default''"]
  have 1: "waitForHwService ?off ''com.example.foo@1.0::IFoo'' ''default'' demo_state =
      Some (\<lparr>gDefaultServiceManager = None, attempts = 0,
             trace = [Access ''/dev/hwbinder'',
                      LogError ''Could not get default service manager.'']\<rparr>, None)"
    by (simp add: emit_def)
  from waitForHwService_blocking [OF handle, of "''com.example.foo@1.0::IGone''" "''default''"] gone
  have 2: "waitForHwService demo_registry ''com.example.foo@1.0::IGone'' ''default'' demo_state =
     Some (\<lparr>gDefaultServiceManager = Some 5, attempts = 3,
            trace = [Access ''/dev/hwbinder'', GetContextObject, Sleep 1,
                     GetContextObject, Sleep 1, GetContextObject,
                     RegisterForNotifications 5 ''com.example.foo@1.0::IGone'' ''default'',
                     LogError ''Transport error, DEAD_OBJECT, during notification registration for com.example.foo@1.0::IGone/default.'']\<rparr>,
           None)"
    by (simp add: emit_def)
  from waitForHwService_blocking [OF handle, of "''com.example.foo@1.0::IBaz''" "''default''"] refused
  have 3: "waitForHwService demo_registry ''com.example.foo@1.0::IBaz'' ''default'' demo_state =
     Some (\<lparr>gDefaultServiceManager = Some 5, attempts = 3,
            trace = [Access ''/dev/hwbinder'', GetContextObject, Sleep 1,
                     GetContextObject, Sleep 1, GetContextObject,
                     RegisterForNotifications 5 ''com.example.foo@1.0::IBaz'' ''default'',
                     LogError ''Could not register for notifications for com.example.foo@1.0::IBaz/default.'']\<rparr>,
           None)"
    by (simp add: emit_def)
  from waitForHwService_blocking [OF handle, of "''com.example.foo@1.0::IFoo''" "''default''"]
    accepted at2
  have "waitForHwService demo_registry ''com.example.foo@1.0::IFoo'' ''default'' demo_state =
      Some (emit (RegisterForNotifications 5 ''com.example.foo@1.0::IFoo'' ''default''
                    # replicate 2 WaitBlocked) ?s1,
            Some (waiter_after demo_registry 2))"
    by blast
  then have 4: "waitForHwService demo_registry ''com.example.foo@1.0::IFoo'' ''default'' demo_state =
     Some (\<lparr>gDefaultServiceManager = Some 5, attempts = 3,
            trace = [Access ''/dev/hwbinder'', GetContextObject, Sleep 1,
                     GetContextObject, Sleep 1, GetContextObject,
                     RegisterForNotifications 5 ''com.example.foo@1.0::IFoo'' ''default'',
                     WaitBlocked, WaitBlocked]\<rparr>,
           Some \<lparr>mRegistered = True, notify_count = 1\<rparr>)"
    unfolding after2 by (simp add: emit_def numeral_2_eq_2)
  from waitForHwService_blocking [OF handle', of "''com.example.foo@1.0::IFoo''" "''default''"]
    accepted' never
  have "\<not> (\<exists>res. waitForHwService ?never ''com.example.foo@1.0::IFoo'' ''default'' demo_state = Some res)"
    by blast
  then have 5: "waitForHwService ?never ''com.example.foo@1.0::IFoo'' ''default'' demo_state = None"
    by (cases "waitForHwService ?never ''com.example.foo@1.0::IFoo'' ''default'' demo_state") blast+
  from 1 2 3 at2 4 5 show ?thesis
    by blast
qed

text \<open>
  C10. The result of \<open>onRegistration\<close> does not depend on the interface name, the
  instance name or the \<open>preexisting\<close> flag it is called with: after any call the
  waiter is registered and \<open>wait\<close> returns at once. So a caller of \<open>waitForHwService\<close>
  whose registration was accepted is released by the first notification that
  reaches its waiter, whatever interface and instance that notification reports.
\<close>

theorem onRegistration_ignores_arguments:
  "onRegistration w fqName name preexisting = onRegistration w fqName' name' preexisting'
   \<and> mRegistered (onRegistration w fqName name preexisting)
   \<and> wait sched n (onRegistration w fqName name preexisting) =
       Some (onRegistration w fqName name preexisting, n)
   \<and> (defaultServiceManager r s = Some (Some m, s1)
       \<and> remote_registerForNotifications r m interface instanceName = ReturnOk True
       \<and> early_notifications r = (fqName, name, preexisting) # rest \<longrightarrow>
       waitForHwService r interface instanceName s =
         Some (emit [RegisterForNotifications m interface instanceName] s1,
               Some \<lparr>mRegistered = True, notify_count = 1\<rparr>))"
proof (intro conjI impI)
  show "onRegistration w fqName name preexisting = onRegistration w fqName' name' preexisting'"
    by (simp add: onRegistration_def)
  show reg: "mRegistered (onRegistration w fqName name preexisting)"
    by (simp add: onRegistration_def)
  then show "wait sched n (onRegistration w fqName name preexisting) =
       Some (onRegistration w fqName name preexisting, n)"
    by (rule wait_registered)
  assume a: "defaultServiceManager r s = Some (Some m, s1)
       \<and> remote_registerForNotifications r m interface instanceName = ReturnOk True
       \<and> early_notifications r = (fqName, name, preexisting) # rest"
  then have early: "deliver (early_notifications r) new_Waiter = \<lparr>mRegistered = True, notify_count = 1\<rparr>"
    by (simp add: deliver_char new_Waiter_def)
  have "wait (blocked_notifications r) 0 \<lparr>mRegistered = True, notify_count = 1\<rparr> =
      Some (\<lparr>mRegistered = True, notify_count = 1\<rparr>, 0)"
    by (rule wait_registered) simp
  with a early show "waitForHwService r interface instanceName s =
         Some (emit [RegisterForNotifications m interface instanceName] s1,
               Some \<lparr>mRegistered = True, notify_count = 1\<rparr>)"
    by (simp add: waitForHwService_registered)
qed

theorem onRegistration_ignores_arguments_witness:
  "onRegistration new_Waiter ''com.example.foo@1.0::IFoo'' ''default'' False =
     onRegistration new_Waiter ''com.example.bar@2.0::IBar'' ''other'' True
   \<and> early_notifications
        (demo_registry\<lparr>early_notifications := [(''com.example.bar@2.0::IBar'', ''other'', True)]\<rparr>) =
       [(''com.example.bar@2.0::IBar'', ''other'', True)]
   \<and> waitForHwService
        (demo_registry\<lparr>early_notifications := [(''com.example.bar@2.0::IBar'', ''other'', True)]\<rparr>)
        ''com.example.foo@1.0::IFoo'' ''default'' demo_state =
       Some (\<lparr>gDefaultServiceManager = Some 5, attempts = 3,
              trace = [Access ''/dev/hwbinder'', GetContextObject, Sleep 1,
                       GetContextObject, Sleep 1, GetContextObject,
                       RegisterForNotifications 5 ''com.example.foo@1.0::IFoo'' ''default'']\<rparr>,
             Some \<lparr>mRegistered = True, notify_count = 1\<rparr>)"
proof -
  let ?r = "demo_registry\<lparr>early_notifications := [(''com.example.bar@2.0::IBar'', ''other'', True)]\<rparr>"
  let ?s1 = "\<lparr>gDefaultServiceManager = Some 5, attempts = 3,
              trace = [Access ''/dev/hwbinder'', GetContextObject, Sleep 1,
                       GetContextObject, Sleep 1, GetContextObject]\<rparr>"
  have handle: "defaultServiceManager ?r demo_state = Some (Some 5, ?s1)"
    using demo_handle [where early = "[(''com.example.bar@2.0::IBar'', ''other'', True)]"
        and sched = "blocked_notifications demo_registry"]
    by simp
  have accepted: "remote_registerForNotifications ?r 5 ''com.example.foo@1.0::IFoo'' ''default''
      = ReturnOk True"
    by (simp add: demo_registry_def)
  have early: "early_notifications ?r = (''com.example.bar@2.0::IBar'', ''other'', True) # []"
    by simp
  note t = onRegistration_ignores_arguments
    [of new_Waiter "''com.example.bar@2.0::IBar''" "''other''" True
        "''com.example.foo@1.0::IFoo''" "''default''" False "\<lambda>n. []" 0
        ?r demo_state 5 ?s1 "''com.example.foo@1.0::IFoo''" "''default''" "[]"]
  from t have 1: "onRegistration new_Waiter ''com.example.foo@1.0::IFoo'' ''default'' False =
     onRegistration new_Waiter ''com.example.bar@2.0::IBar'' ''other'' True"
    by simp
  from t handle accepted early
  have "waitForHwService ?r ''com.example.foo@1.0::IFoo'' ''default'' demo_state =
      Some (emit [RegisterForNotifications 5 ''com.example.foo@1.0::IFoo'' ''default''] ?s1,
            Some \<lparr>mRegistered = True, notify_count = 1\<rparr>)"
    by blast
  then have 2: "waitForHwService ?r ''com.example.foo@1.0::IFoo'' ''default'' demo_state =
       Some (\<lparr>gDefaultServiceManager = Some 5, attempts = 3,
              trace = [Access ''/dev/hwbinder'', GetContextObject, Sleep 1,
                       GetContextObject, Sleep 1, GetContextObject,
                       RegisterForNotifications 5 ''com.example.foo@1.0::IFoo'' ''default'']\<rparr>,
             Some \<lparr>mRegistered = True, notify_count = 1\<rparr>)"
    by (simp add: emit_def)
  from 1 early 2 show ?thesis
    by simp
qed

section \<open>The search for a library\<close>

lemma lib_loop_all_fail:
  "unloadable e path libs \<Longrightarrow>
   lib_loop e path libs None = (FellThrough None, map (\<lambda>lib. DlOpen (path @ lib)) libs)"
  by (induction libs) (simp_all add: unloadable_def)

lemma lib_loop_first:
  "unloadable e path ls1 \<Longrightarrow> dlopen e (path @ lib) = Some h \<Longrightarrow>
   lib_loop e path (ls1 @ lib # ls2) handle =
     (GotoBeginLookup h lib, map (\<lambda>lib. DlOpen (path @ lib)) (ls1 @ [lib]))"
proof (induction ls1 arbitrary: handle)
  case Nil
  then show ?case by simp
next
  case (Cons l ls1)
  from Cons.prems have "dlopen e (path @ l) = None" and "unloadable e path ls1"
    by (simp_all add: unloadable_def)
  with Cons.IH [OF _ Cons.prems(2), of None] show ?case
    by simp
qed

lemma path_loop_all_fail:
  "\<forall>r\<in>set rs. unloadable e r (fst (search e r pfx ''.so'')) \<Longrightarrow>
   path_loop e pfx rs None = (FellThrough None, concat (map (failed_root_trace e pfx) rs))"
proof (induction rs)
  case Nil
  then show ?case by simp
next
  case (Cons r rs)
  obtain libs t1 where s: "search e r pfx ''.so'' = (libs, t1)"
    by (cases "search e r pfx ''.so''")
  with snd_search [of e r pfx "''.so''"] have t1: "t1 = [OpenDir r]"
    by simp
  from Cons.prems s have "unloadable e r libs"
    by simp
  then have l: "lib_loop e r libs None = (FellThrough None, map (\<lambda>lib. DlOpen (r @ lib)) libs)"
    by (rule lib_loop_all_fail)
  from Cons.prems have "path_loop e pfx rs None =
      (FellThrough None, concat (map (failed_root_trace e pfx) rs))"
    by (intro Cons.IH) simp
  moreover have "failed_root_trace e pfx r =
      [OpenDir r] @ multiple_warning libs @ map (\<lambda>lib. DlOpen (r @ lib)) libs"
    using s by (simp add: failed_root_trace_def)
  ultimately show ?case
    using s t1 l by simp
qed

lemma path_loop_first:
  assumes "\<forall>r\<in>set rs1. unloadable e r (fst (search e r pfx ''.so''))"
    and "fst (search e root pfx ''.so'') = ls1 @ lib # ls2"
    and "unloadable e root ls1"
    and "dlopen e (root @ lib) = Some h"
  shows "path_loop e pfx (rs1 @ root # rs2) None =
     (GotoBeginLookup h lib,
      concat (map (failed_root_trace e pfx) rs1) @ [OpenDir root]
        @ multiple_warning (ls1 @ lib # ls2) @ map (\<lambda>lib. DlOpen (root @ lib)) (ls1 @ [lib]))"
  using assms(1)
proof (induction rs1)
  case Nil
  obtain libs t1 where s: "search e root pfx ''.so'' = (libs, t1)"
    by (cases "search e root pfx ''.so''")
  with snd_search [of e root pfx "''.so''"] assms(2)
  have t1: "t1 = [OpenDir root]" and libs: "libs = ls1 @ lib # ls2"
    by simp_all
  from lib_loop_first [OF assms(3,4), of ls2 None] s t1 libs show ?case
    by simp
next
  case (Cons r rs1)
  obtain libs t1 where s: "search e r pfx ''.so'' = (libs, t1)"
    by (cases "search e r pfx ''.so''")
  with snd_search [of e r pfx "''.so''"] have t1: "t1 = [OpenDir r]"
    by simp
  from Cons.prems s have "unloadable e r libs"
    by simp
  then have l: "lib_loop e r libs None = (FellThrough None, map (\<lambda>lib. DlOpen (r @ lib)) libs)"
    by (rule lib_loop_all_fail)
  from Cons.prems have "path_loop e pfx (rs1 @ root # rs2) None =
     (GotoBeginLookup h lib,
      concat (map (failed_root_trace e pfx) rs1) @ [OpenDir root]
        @ multiple_warning (ls1 @ lib # ls2) @ map (\<lambda>lib. DlOpen (root @ lib)) (ls1 @ [lib]))"
    by (intro Cons.IH) simp
  moreover have "failed_root_trace e pfx r =
      [OpenDir r] @ multiple_warning libs @ map (\<lambda>lib. DlOpen (r @ lib)) libs"
    using s by (simp add: failed_root_trace_def)
  ultimately show ?case
    using s t1 l by simp
qed

lemma get_valid:
  assumes "isValid (parseFQName e fqName)" and "isFullyQualified (parseFQName e fqName)"
    and "\<not> isIdentifier (parseFQName e fqName)"
  shows "get e fqName name =
     (case path_loop e (impl_prefix (parseFQName e fqName)) (search_roots e) None of
        (GotoBeginLookup h lib, t) \<Rightarrow>
          (fst (beginLookup e (parseFQName e fqName) name h lib),
           t @ snd (beginLookup e (parseFQName e fqName) name h lib))
      | (FellThrough None, t) \<Rightarrow> (None, t)
      | (FellThrough (Some h), t) \<Rightarrow>
          (fst (beginLookup e (parseFQName e fqName) name h []),
           t @ snd (beginLookup e (parseFQName e fqName) name h [])))"
  using assms
  by (simp add: get_def Let_def split: prod.split loop_exit.split option.split)

lemma get_loaded:
  assumes "isValid (parseFQName e fqName)" and "isFullyQualified (parseFQName e fqName)"
    and "\<not> isIdentifier (parseFQName e fqName)"
    and "search_roots e = rs1 @ root # rs2"
    and "\<forall>r\<in>set rs1. unloadable e r (fst (search e r (impl_prefix (parseFQName e fqName)) ''.so''))"
    and "fst (search e root (impl_prefix (parseFQName e fqName)) ''.so'') = ls1 @ lib # ls2"
    and "unloadable e root ls1"
    and "dlopen e (root @ lib) = Some h"
  shows "get e fqName name =
     (fst (beginLookup e (parseFQName e fqName) name h lib),
      concat (map (failed_root_trace e (impl_prefix (parseFQName e fqName))) rs1)
        @ [OpenDir root] @ multiple_warning (ls1 @ lib # ls2)
        @ map (\<lambda>lib. DlOpen (root @ lib)) (ls1 @ [lib])
        @ snd (beginLookup e (parseFQName e fqName) name h lib))"
  unfolding get_valid [OF assms(1-3)] assms(4) path_loop_first [OF assms(5-8)]
  by simp

lemma get_none_loaded:
  assumes "isValid (parseFQName e fqName)" and "isFullyQualified (parseFQName e fqName)"
    and "\<not> isIdentifier (parseFQName e fqName)"
    and "\<forall>r\<in>set (search_roots e).
           unloadable e r (fst (search e r (impl_prefix (parseFQName e fqName)) ''.so''))"
  shows "get e fqName name =
     (None, concat (map (failed_root_trace e (impl_prefix (parseFQName e fqName))) (search_roots e)))"
  unfolding get_valid [OF assms(1-3)] path_loop_all_fail [OF assms(4)]
  by simp

lemma opened_dirs_append [simp]: "opened_dirs (t @ u) = opened_dirs t @ opened_dirs u"
  by (simp add: opened_dirs_def)

lemma opened_dirs_Cons:
  "opened_dirs (ev # t) = (case ev of OpenDir p \<Rightarrow> [p] | _ \<Rightarrow> []) @ opened_dirs t"
  by (simp add: opened_dirs_def)

lemma opened_dirs_Nil [simp]: "opened_dirs [] = []"
  by (simp add: opened_dirs_def)

lemma opened_dirs_DlOpen [simp]: "opened_dirs (map (\<lambda>lib. DlOpen (f lib)) libs) = []"
  by (induction libs) (simp_all add: opened_dirs_Cons)

lemma opened_dirs_warning [simp]: "opened_dirs (multiple_warning libs) = []"
  by (simp add: multiple_warning_def opened_dirs_Cons)

lemma opened_dirs_beginLookup [simp]: "opened_dirs (snd (beginLookup e iface name h lib)) = []"
  by (simp add: beginLookup_def Let_def opened_dirs_Cons split: option.split)

lemma opened_dirs_failed_roots [simp]:
  "opened_dirs (concat (map (failed_root_trace e pfx) rs)) = rs"
  by (induction rs) (simp_all add: failed_root_trace_def opened_dirs_Cons)

lemma demo_valid:
  "isValid (parseFQName (demo_env\<lparr>dlopen := dl, dlsym := ds\<rparr>) ''com.example.foo@1.0::IFoo'')"
  "isFullyQualified (parseFQName (demo_env\<lparr>dlopen := dl, dlsym := ds\<rparr>) ''com.example.foo@1.0::IFoo'')"
  "\<not> isIdentifier (parseFQName (demo_env\<lparr>dlopen := dl, dlsym := ds\<rparr>) ''com.example.foo@1.0::IFoo'')"
  "impl_prefix (parseFQName (demo_env\<lparr>dlopen := dl, dlsym := ds\<rparr>) ''com.example.foo@1.0::IFoo'')
     = ''com.example.foo@1.0-impl''"
  "fetch_symbol (parseFQName (demo_env\<lparr>dlopen := dl, dlsym := ds\<rparr>) ''com.example.foo@1.0::IFoo'')
     = ''HIDL_FETCH_IFoo''"
  by (simp_all add: demo_env_def demo_fq_def impl_prefix_def fetch_symbol_def)

lemma demo_roots:
  "search_roots (demo_env\<lparr>dlopen := dl, dlsym := ds\<rparr>) = [''/odm/'', ''/vendor/'', ''/system/'']"
  by (simp add: search_roots_def demo_env_def)

lemma demo_scan:
  "fst (search (demo_env\<lparr>dlopen := dl, dlsym := ds\<rparr>) ''/odm/'' ''com.example.foo@1.0-impl'' ''.so'') =
     [''com.example.foo@1.0-impl-bad.so'', ''com.example.foo@1.0-impl.so'',
      ''com.example.foo@1.0-impl-late.so'']"
  "fst (search (demo_env\<lparr>dlopen := dl, dlsym := ds\<rparr>) ''/vendor/'' ''com.example.foo@1.0-impl'' ''.so'') =
     [''com.example.foo@1.0-impl-ext.so'']"
  "fst (search (demo_env\<lparr>dlopen := dl, dlsym := ds\<rparr>) ''/system/'' ''com.example.foo@1.0-impl'' ''.so'') = []"
  by (simp_all add: search_def demo_env_def StartsWith_def EndsWith_def)

lemma demo_same: "demo_env\<lparr>dlopen := dlopen demo_env, dlsym := dlsym demo_env\<rparr> = demo_env"
  by simp

text \<open>
  C1. For a valid, fully qualified name that is not an identifier, \<open>get\<close> goes through
  the roots ODM, vendor, system in this order and, within a root, through the
  candidates in scan order. When the first candidate that loads is \<open>lib\<close> in \<open>root\<close>
  (every candidate of the roots before \<open>root\<close>, and every candidate before \<open>lib\<close> in
  \<open>root\<close>, fails to load), the run consists of the failed roots, the scan of \<open>root\<close>,
  the load attempts up to \<open>lib\<close>, and the symbol lookup in \<open>lib\<close>: the candidates
  after \<open>lib\<close> are not tried and the roots after \<open>root\<close> are not scanned. When no
  candidate loads, the result is null after every root has been tried.
\<close>

theorem get_priority_order:
  assumes "isValid (parseFQName e fqName)" and "isFullyQualified (parseFQName e fqName)"
    and "\<not> isIdentifier (parseFQName e fqName)"
  shows "search_roots e =
           [HAL_LIBRARY_PATH_ODM e, HAL_LIBRARY_PATH_VENDOR e, HAL_LIBRARY_PATH_SYSTEM e]
     \<and> (\<forall>rs1 root rs2 ls1 lib ls2 h.
           search_roots e = rs1 @ root # rs2
           \<and> (\<forall>r\<in>set rs1.
                 unloadable e r (fst (search e r (impl_prefix (parseFQName e fqName)) ''.so'')))
           \<and> fst (search e root (impl_prefix (parseFQName e fqName)) ''.so'') = ls1 @ lib # ls2
           \<and> unloadable e root ls1
           \<and> dlopen e (root @ lib) = Some h \<longrightarrow>
           get e fqName name =
             (fst (beginLookup e (parseFQName e fqName) name h lib),
              concat (map (failed_root_trace e (impl_prefix (parseFQName e fqName))) rs1)
                @ [OpenDir root] @ multiple_warning (ls1 @ lib # ls2)
                @ map (\<lambda>lib. DlOpen (root @ lib)) (ls1 @ [lib])
                @ snd (beginLookup e (parseFQName e fqName) name h lib))
           \<and> opened_dirs (snd (get e fqName name)) = rs1 @ [root])
     \<and> ((\<forall>r\<in>set (search_roots e).
            unloadable e r (fst (search e r (impl_prefix (parseFQName e fqName)) ''.so''))) \<longrightarrow>
         get e fqName name =
           (None, concat (map (failed_root_trace e (impl_prefix (parseFQName e fqName)))
                           (search_roots e))))"
proof (intro conjI allI impI)
  show "search_roots e =
      [HAL_LIBRARY_PATH_ODM e, HAL_LIBRARY_PATH_VENDOR e, HAL_LIBRARY_PATH_SYSTEM e]"
    by (simp add: search_roots_def)
next
  fix rs1 root rs2 ls1 lib ls2 h
  assume a: "search_roots e = rs1 @ root # rs2
           \<and> (\<forall>r\<in>set rs1.
                 unloadable e r (fst (search e r (impl_prefix (parseFQName e fqName)) ''.so'')))
           \<and> fst (search e root (impl_prefix (parseFQName e fqName)) ''.so'') = ls1 @ lib # ls2
           \<and> unloadable e root ls1
           \<and> dlopen e (root @ lib) = Some h"
  then show g: "get e fqName name =
             (fst (beginLookup e (parseFQName e fqName) name h lib),
              concat (map (failed_root_trace e (impl_prefix (parseFQName e fqName))) rs1)
                @ [OpenDir root] @ multiple_warning (ls1 @ lib # ls2)
                @ map (\<lambda>lib. DlOpen (root @ lib)) (ls1 @ [lib])
                @ snd (beginLookup e (parseFQName e fqName) name h lib))"
    by (intro get_loaded assms) blast+
  show "opened_dirs (snd (get e fqName name)) = rs1 @ [root]"
    unfolding g by (simp add: opened_dirs_Cons)
next
  assume "\<forall>r\<in>set (search_roots e).
            unloadable e r (fst (search e r (impl_prefix (parseFQName e fqName)) ''.so''))"
  then show "get e fqName name =
           (None, concat (map (failed_root_trace e (impl_prefix (parseFQName e fqName)))
                           (search_roots e)))"
    by (intro get_none_loaded assms)
qed

theorem get_priority_order_witness:
  "isValid (parseFQName demo_env ''com.example.foo@1.0::IFoo'')
   \<and> isFullyQualified (parseFQName demo_env ''com.example.foo@1.0::IFoo'')
   \<and> \<not> isIdentifier (parseFQName demo_env ''com.example.foo@1.0::IFoo'')
   \<and> dlopen demo_env ''/odm/com.example.foo@1.0-impl-bad.so'' = None
   \<and> dlopen demo_env ''/odm/com.example.foo@1.0-impl.so'' = Some 7
   \<and> dlopen demo_env ''/odm/com.example.foo@1.0-impl-late.so'' = Some 8
   \<and> dlopen demo_env ''/vendor/com.example.foo@1.0-impl-ext.so'' = Some 9
   \<and> get demo_env ''com.example.foo@1.0::IFoo'' ''default'' =
       (Some 42,
        [OpenDir ''/odm/'',
         LogWarning ''Multiple libraries found: com.example.foo@1.0-impl-bad.so, com.example.foo@1.0-impl.so, com.example.foo@1.0-impl-late.so'',
         DlOpen ''/odm/com.example.foo@1.0-impl-bad.so'',
         DlOpen ''/odm/com.example.foo@1.0-impl.so'',
         DlSym 7 ''HIDL_FETCH_IFoo'',
         CallGenerator ''HIDL_FETCH_IFoo'' ''default''])
   \<and> opened_dirs (snd (get demo_env ''com.example.foo@1.0::IFoo'' ''default'')) = [''/odm/'']
   \<and> get (demo_env\<lparr>dlopen := \<lambda>p. None\<rparr>) ''com.example.foo@1.0::IFoo'' ''default'' =
       (None,
        [OpenDir ''/odm/'',
         LogWarning ''Multiple libraries found: com.example.foo@1.0-impl-bad.so, com.example.foo@1.0-impl.so, com.example.foo@1.0-impl-late.so'',
         DlOpen ''/odm/com.example.foo@1.0-impl-bad.so'',
         DlOpen ''/odm/com.example.foo@1.0-impl.so'',
         DlOpen ''/odm/com.example.foo@1.0-impl-late.so'',
         OpenDir ''/vendor/'',
         DlOpen ''/vendor/com.example.foo@1.0-impl-ext.so'',
         OpenDir ''/system/''])"
proof -
  let ?fq = "''com.example.foo@1.0::IFoo''"
  let ?none = "demo_env\<lparr>dlopen := \<lambda>p. None\<rparr>"
  let ?bad = "''com.example.foo@1.0-impl-bad.so''"
  let ?good = "''com.example.foo@1.0-impl.so''"
  let ?late = "''com.example.foo@1.0-impl-late.so''"
  note v = demo_valid [where dl = "dlopen demo_env" and ds = "dlsym demo_env", unfolded demo_same]
  note sc = demo_scan [where dl = "dlopen demo_env" and ds = "dlsym demo_env", unfolded demo_same]
  note ro = demo_roots [where dl = "dlopen demo_env" and ds = "dlsym demo_env", unfolded demo_same]
  have none_eq: "demo_env\<lparr>dlopen := \<lambda>p. None, dlsym := dlsym demo_env\<rparr> = ?none"
    by simp
  note v' = demo_valid [where dl = "\<lambda>p. None" and ds = "dlsym demo_env", unfolded none_eq]
  note sc' = demo_scan [where dl = "\<lambda>p. None" and ds = "dlsym demo_env", unfolded none_eq]
  note ro' = demo_roots [where dl = "\<lambda>p. None" and ds = "dlsym demo_env", unfolded none_eq]
  have loads: "dlopen demo_env ''/odm/com.example.foo@1.0-impl-bad.so'' = None"
    "dlopen demo_env ''/odm/com.example.foo@1.0-impl.so'' = Some 7"
    "dlopen demo_env ''/odm/com.example.foo@1.0-impl-late.so'' = Some 8"
    "dlopen demo_env ''/vendor/com.example.foo@1.0-impl-ext.so'' = Some 9"
    by (simp_all add: demo_env_def)
  have h1: "search_roots demo_env = [] @ ''/odm/'' # [''/vendor/'', ''/system/'']"
    by (simp add: ro)
  have h2: "\<forall>r\<in>set []. unloadable demo_env r
      (fst (search demo_env r (impl_prefix (parseFQName demo_env ?fq)) ''.so''))"
    by simp
  have h3: "fst (search demo_env ''/odm/'' (impl_prefix (parseFQName demo_env ?fq)) ''.so'') =
      [?bad] @ ?good # [?late]"
    by (simp add: v sc)
  have h4: "unloadable demo_env ''/odm/'' [?bad]"
    by (simp add: unloadable_def loads)
  have h5: "dlopen demo_env (''/odm/'' @ ?good) = Some 7"
    by (simp add: loads)
  have h6: "\<forall>r\<in>set (search_roots ?none).
      unloadable ?none r (fst (search ?none r (impl_prefix (parseFQName ?none ?fq)) ''.so''))"
    by (simp add: unloadable_def)
  note t = get_priority_order [OF v(1-3), of "''default''"]
  note t' = get_priority_order [OF v'(1-3), of "''default''"]
  from t h1 h2 h3 h4 h5
  have g: "get demo_env ?fq ''default'' =
      (fst (beginLookup demo_env (parseFQName demo_env ?fq) ''default'' 7 ?good),
       concat (map (failed_root_trace demo_env (impl_prefix (parseFQName demo_env ?fq))) [])
         @ [OpenDir ''/odm/''] @ multiple_warning ([?bad] @ ?good # [?late])
         @ map (\<lambda>lib. DlOpen (''/odm/'' @ lib)) ([?bad] @ [?good])
         @ snd (beginLookup demo_env (parseFQName demo_env ?fq) ''default'' 7 ?good))"
    and od: "opened_dirs (snd (get demo_env ?fq ''default'')) = [] @ [''/odm/'']"
    by blast+
  have bl: "beginLookup demo_env (parseFQName demo_env ?fq) ''default'' 7 ?good =
      (Some 42, [DlSym 7 ''HIDL_FETCH_IFoo'', CallGenerator ''HIDL_FETCH_IFoo'' ''default''])"
    by (simp add: beginLookup_def v Let_def) (simp add: demo_env_def)
  have 1: "get demo_env ?fq ''default'' =
       (Some 42,
        [OpenDir ''/odm/'',
         LogWarning ''Multiple libraries found: com.example.foo@1.0-impl-bad.so, com.example.foo@1.0-impl.so, com.example.foo@1.0-impl-late.so'',
         DlOpen ''/odm/com.example.foo@1.0-impl-bad.so'',
         DlOpen ''/odm/com.example.foo@1.0-impl.so'',
         DlSym 7 ''HIDL_FETCH_IFoo'',
         CallGenerator ''HIDL_FETCH_IFoo'' ''default''])"
    unfolding g bl by (simp add: multiple_warning_def)
  from t' h6
  have "get ?none ?fq ''default'' =
      (None, concat (map (failed_root_trace ?none (impl_prefix (parseFQName ?none ?fq)))
                      (search_roots ?none)))"
    by blast
  then have 2: "get ?none ?fq ''default'' =
       (None,
        [OpenDir ''/odm/'',
         LogWarning ''Multiple libraries found: com.example.foo@1.0-impl-bad.so, com.example.foo@1.0-impl.so, com.example.foo@1.0-impl-late.so'',
         DlOpen ''/odm/com.example.foo@1.0-impl-bad.so'',
         DlOpen ''/odm/com.example.foo@1.0-impl.so'',
         DlOpen ''/odm/com.example.foo@1.0-impl-late.so'',
         OpenDir ''/vendor/'',
         DlOpen ''/vendor/com.example.foo@1.0-impl-ext.so'',
         OpenDir ''/system/''])"
    by (simp add: v v' ro' failed_root_trace_def sc' multiple_warning_def)
  from v(1-3) loads 1 od 2 show ?thesis
    by simp
qed

lemma first_load_append:
  "first_load e (t @ u) =
     (case first_load e t of Some (p, r) \<Rightarrow> Some (p, r @ u) | None \<Rightarrow> first_load e u)"
  by (induction e t rule: first_load.induct) simp_all

lemma first_load_warning [simp]: "first_load e (multiple_warning libs) = None"
  by (simp add: multiple_warning_def)

lemma lib_loop_first_load:
  "lib_loop e path libs None = (ex, t) \<Longrightarrow>
   (case ex of
      GotoBeginLookup h lib \<Rightarrow>
        first_load e t = Some (path @ lib, []) \<and> dlopen e (path @ lib) = Some h
    | FellThrough h' \<Rightarrow> first_load e t = None \<and> h' = None)"
proof (induction libs arbitrary: ex t)
  case Nil
  then show ?case by auto
next
  case (Cons l libs)
  show ?case
  proof (cases "dlopen e (path @ l)")
    case None
    obtain ex' t' where r: "lib_loop e path libs None = (ex', t')"
      by (cases "lib_loop e path libs None")
    with None Cons.prems have "ex = ex'" and "t = DlOpen (path @ l) # t'"
      by simp_all
    with Cons.IH [OF r] None show ?thesis
      by (simp split: loop_exit.splits)
  next
    case (Some h)
    with Cons.prems show ?thesis
      by auto
  qed
qed

lemma path_loop_first_load:
  "path_loop e pfx rs None = (ex, t) \<Longrightarrow>
   (case ex of
      GotoBeginLookup h lib \<Rightarrow>
        (\<exists>root\<in>set rs. first_load e t = Some (root @ lib, []) \<and> dlopen e (root @ lib) = Some h)
    | FellThrough h' \<Rightarrow> first_load e t = None \<and> h' = None)"
proof (induction rs arbitrary: ex t)
  case Nil
  then show ?case by auto
next
  case (Cons r rs)
  obtain libs t1 where s: "search e r pfx ''.so'' = (libs, t1)"
    by (cases "search e r pfx ''.so''")
  with snd_search [of e r pfx "''.so''"] have t1: "t1 = [OpenDir r]"
    by simp
  obtain ex2 t2 where l: "lib_loop e r libs None = (ex2, t2)"
    by (cases "lib_loop e r libs None")
  note fl = lib_loop_first_load [OF l]
  show ?case
  proof (cases ex2)
    case (GotoBeginLookup h lib)
    with Cons.prems s t1 l have "ex = GotoBeginLookup h lib"
      and "t = [OpenDir r] @ multiple_warning libs @ t2"
      by simp_all
    with fl GotoBeginLookup show ?thesis
      by (simp add: first_load_append)
  next
    case (FellThrough h')
    with fl have h': "h' = None" and none: "first_load e t2 = None"
      by simp_all
    obtain ex3 t3 where p: "path_loop e pfx rs None = (ex3, t3)"
      by (cases "path_loop e pfx rs None")
    with Cons.prems s t1 l FellThrough h' have "ex = ex3"
      and "t = [OpenDir r] @ multiple_warning libs @ t2 @ t3"
      by simp_all
    with Cons.IH [OF p] none show ?thesis
      by (auto simp: first_load_append split: loop_exit.splits)
  qed
qed

lemma demo_nosym_get:
  "get (demo_env\<lparr>dlsym := \<lambda>h sym. None\<rparr>) ''com.example.foo@1.0::IFoo'' ''default'' =
     (None,
      [OpenDir ''/odm/'',
       LogWarning ''Multiple libraries found: com.example.foo@1.0-impl-bad.so, com.example.foo@1.0-impl.so, com.example.foo@1.0-impl-late.so'',
       DlOpen ''/odm/com.example.foo@1.0-impl-bad.so'',
       DlOpen ''/odm/com.example.foo@1.0-impl.so'',
       DlSym 7 ''HIDL_FETCH_IFoo'',
       LogError ''Passthrough lookup opened com.example.foo@1.0-impl.so but could not find symbol HIDL_FETCH_IFoo''])"
proof -
  let ?e = "demo_env\<lparr>dlsym := \<lambda>h sym. None\<rparr>"
  let ?fq = "''com.example.foo@1.0::IFoo''"
  let ?bad = "''com.example.foo@1.0-impl-bad.so''"
  let ?good = "''com.example.foo@1.0-impl.so''"
  let ?late = "''com.example.foo@1.0-impl-late.so''"
  have same: "demo_env\<lparr>dlopen := dlopen demo_env, dlsym := \<lambda>h sym. None\<rparr> = ?e"
    by simp
  note v = demo_valid [where dl = "dlopen demo_env" and ds = "\<lambda>h sym. None", unfolded same]
  note sc = demo_scan [where dl = "dlopen demo_env" and ds = "\<lambda>h sym. None", unfolded same]
  note ro = demo_roots [where dl = "dlopen demo_env" and ds = "\<lambda>h sym. None", unfolded same]
  have h1: "search_roots ?e = [] @ ''/odm/'' # [''/vendor/'', ''/system/'']"
    by (simp add: ro)
  have h2: "\<forall>r\<in>set []. unloadable ?e r (fst (search ?e r (impl_prefix (parseFQName ?e ?fq)) ''.so''))"
    by simp
  have h3: "fst (search ?e ''/odm/'' (impl_prefix (parseFQName ?e ?fq)) ''.so'') =
      [?bad] @ ?good # [?late]"
    by (simp only: v sc) simp
  have h4: "unloadable ?e ''/odm/'' [?bad]"
    by (simp add: unloadable_def demo_env_def)
  have h5: "dlopen ?e (''/odm/'' @ ?good) = Some 7"
    by (simp add: demo_env_def)
  have bl: "beginLookup ?e (parseFQName ?e ?fq) ''default'' 7 ?good =
      (None, [DlSym 7 ''HIDL_FETCH_IFoo'',
              LogError ''Passthrough lookup opened com.example.foo@1.0-impl.so but could not find symbol HIDL_FETCH_IFoo''])"
    unfolding beginLookup_def v by (simp add: Let_def)
  show ?thesis
    unfolding get_loaded [OF v(1-3) h1 h2 h3 h4 h5] bl
    by (simp add: multiple_warning_def)
qed

text \<open>
  C5. When some candidate library has loaded in a run of \<open>get\<close> and the symbol
  \<open>HIDL_FETCH_\<close> followed by the interface name is missing from it, \<open>get\<close> returns
  null, and all that happens after that load is the symbol lookup and the error
  log: no further directory is scanned and no further library is loaded.
\<close>

theorem get_missing_symbol:
  assumes "first_load e (snd (get e fqName name)) = Some (p, rest)"
    and "dlopen e p = Some h"
    and "dlsym e h (fetch_symbol (parseFQName e fqName)) = None"
  shows "fst (get e fqName name) = None
     \<and> (\<exists>root\<in>set (search_roots e). \<exists>library.
           p = root @ library
           \<and> rest = [DlSym h (''HIDL_FETCH_'' @ iface_name (parseFQName e fqName)),
                     LogError (''Passthrough lookup opened '' @ library @
                               '' but could not find symbol '' @
                               ''HIDL_FETCH_'' @ iface_name (parseFQName e fqName))])
     \<and> filter touches_filesystem rest = []"
proof -
  let ?iface = "parseFQName e fqName"
  have valid: "isValid ?iface \<and> isFullyQualified ?iface \<and> \<not> isIdentifier ?iface"
  proof (rule ccontr)
    assume "\<not> ?thesis"
    then have "snd (get e fqName name) =
        [LogError (''Invalid interface name passthrough lookup: '' @ fqName)]"
      by (auto simp: get_def Let_def)
    with assms(1) show False
      by simp
  qed
  then have g: "get e fqName name =
     (case path_loop e (impl_prefix ?iface) (search_roots e) None of
        (GotoBeginLookup h lib, t) \<Rightarrow>
          (fst (beginLookup e ?iface name h lib), t @ snd (beginLookup e ?iface name h lib))
      | (FellThrough None, t) \<Rightarrow> (None, t)
      | (FellThrough (Some h), t) \<Rightarrow>
          (fst (beginLookup e ?iface name h []), t @ snd (beginLookup e ?iface name h [])))"
    by (intro get_valid) blast+
  obtain ex t where pl: "path_loop e (impl_prefix ?iface) (search_roots e) None = (ex, t)"
    by (cases "path_loop e (impl_prefix ?iface) (search_roots e) None")
  note fl = path_loop_first_load [OF pl]
  show ?thesis
  proof (cases ex)
    case (FellThrough h')
    with fl have "h' = None" and "first_load e t = None"
      by simp_all
    with g pl FellThrough assms(1) show ?thesis
      by simp
  next
    case (GotoBeginLookup h' lib)
    with fl obtain root where root: "root \<in> set (search_roots e)"
      and first: "first_load e t = Some (root @ lib, [])"
      and opened: "dlopen e (root @ lib) = Some h'"
      by auto
    from g pl GotoBeginLookup
    have g': "get e fqName name =
        (fst (beginLookup e ?iface name h' lib), t @ snd (beginLookup e ?iface name h' lib))"
      by simp
    with assms(1) first have p: "p = root @ lib"
      and rest: "rest = snd (beginLookup e ?iface name h' lib)"
      by (simp_all add: first_load_append)
    with opened assms(2) have h: "h' = h"
      by simp
    with assms(3) have bl: "beginLookup e ?iface name h' lib =
        (None, [DlSym h (''HIDL_FETCH_'' @ iface_name ?iface),
                LogError (''Passthrough lookup opened '' @ lib @
                          '' but could not find symbol '' @
                          ''HIDL_FETCH_'' @ iface_name ?iface)])"
      by (simp add: beginLookup_def fetch_symbol_def Let_def)
    from g' bl have "fst (get e fqName name) = None"
      by simp
    moreover from root p rest bl
    have "\<exists>root\<in>set (search_roots e). \<exists>library.
           p = root @ library
           \<and> rest = [DlSym h (''HIDL_FETCH_'' @ iface_name ?iface),
                     LogError (''Passthrough lookup opened '' @ library @
                               '' but could not find symbol '' @
                               ''HIDL_FETCH_'' @ iface_name ?iface)]"
      by auto
    moreover from rest bl have "filter touches_filesystem rest = []"
      by (simp add: touches_filesystem_def)
    ultimately show ?thesis
      by blast
  qed
qed

theorem get_missing_symbol_witness:
  "first_load (demo_env\<lparr>dlsym := \<lambda>h sym. None\<rparr>)
       (snd (get (demo_env\<lparr>dlsym := \<lambda>h sym. None\<rparr>) ''com.example.foo@1.0::IFoo'' ''default'')) =
     Some (''/odm/com.example.foo@1.0-impl.so'',
           [DlSym 7 ''HIDL_FETCH_IFoo'',
            LogError ''Passthrough lookup opened com.example.foo@1.0-impl.so but could not find symbol HIDL_FETCH_IFoo''])
   \<and> dlopen (demo_env\<lparr>dlsym := \<lambda>h sym. None\<rparr>) ''/odm/com.example.foo@1.0-impl.so'' = Some 7
   \<and> dlopen (demo_env\<lparr>dlsym := \<lambda>h sym. None\<rparr>) ''/odm/com.example.foo@1.0-impl-late.so'' = Some 8
   \<and> dlopen (demo_env\<lparr>dlsym := \<lambda>h sym. None\<rparr>) ''/vendor/com.example.foo@1.0-impl-ext.so'' = Some 9
   \<and> dlsym (demo_env\<lparr>dlsym := \<lambda>h sym. None\<rparr>) 7
        (fetch_symbol (parseFQName (demo_env\<lparr>dlsym := \<lambda>h sym. None\<rparr>) ''com.example.foo@1.0::IFoo''))
       = None
   \<and> fst (get (demo_env\<lparr>dlsym := \<lambda>h sym. None\<rparr>) ''com.example.foo@1.0::IFoo'' ''default'') = None"
proof -
  let ?e = "demo_env\<lparr>dlsym := \<lambda>h sym. None\<rparr>"
  let ?rest = "[DlSym 7 ''HIDL_FETCH_IFoo'',
      LogError ''Passthrough lookup opened com.example.foo@1.0-impl.so but could not find symbol HIDL_FETCH_IFoo'']"
  have loads: "dlopen ?e ''/odm/com.example.foo@1.0-impl-bad.so'' = None"
    "dlopen ?e ''/odm/com.example.foo@1.0-impl.so'' = Some 7"
    "dlopen ?e ''/odm/com.example.foo@1.0-impl-late.so'' = Some 8"
    "dlopen ?e ''/vendor/com.example.foo@1.0-impl-ext.so'' = Some 9"
    by (simp_all add: demo_env_def)
  have a: "first_load ?e (snd (get ?e ''com.example.foo@1.0::IFoo'' ''default'')) =
      Some (''/odm/com.example.foo@1.0-impl.so'', ?rest)"
    unfolding demo_nosym_get using loads(1,2) by simp
  have c: "dlsym ?e 7 (fetch_symbol (parseFQName ?e ''com.example.foo@1.0::IFoo'')) = None"
    by simp
  from get_missing_symbol [OF a loads(2) c]
  have "fst (get ?e ''com.example.foo@1.0::IFoo'' ''default'') = None"
    by (rule conjunct1)
  with a loads c show ?thesis
    by blast
qed

end
